theory Spec2Isabelle
  imports Complex_Main "HOL-Library.Char_ord"
begin

section \<open>Values, errors and events\<close>

text \<open>
  Untyped values (\<open>any\<close> in the source: the failure value the response
  interceptor receives with the server's body in it, error details, request bodies,
  query parameters) are JavaScript values: \<open>undefined\<close> and the values of JSON. A
  number is kept as the text JavaScript prints for it; an object as the list of its own
  properties (of a key listed twice the first entry counts). \<open>js_truthy\<close> is the test
  the operators \<open>||\<close>, \<open>!\<close> and \<open>if\<close> apply.
\<close>

datatype jsval =
    JUndefined
  | JNull
  | JBool bool
  | JNum string
  | JStr string
  | JArr "jsval list"
  | JObj "(string \<times> jsval) list"

fun js_truthy :: "jsval \<Rightarrow> bool" where
  "js_truthy JUndefined = False"
| "js_truthy JNull = False"
| "js_truthy (JBool b) = b"
| "js_truthy (JNum t) = (t \<noteq> ''0'' \<and> t \<noteq> ''NaN'')"
| "js_truthy (JStr s) = (s \<noteq> [])"
| "js_truthy (JArr xs) = True"
| "js_truthy (JObj kvs) = True"

definition js_or :: "jsval \<Rightarrow> jsval \<Rightarrow> jsval" where
  "js_or a b = (if js_truthy a then a else b)"

text \<open>
  \<open>js_get v k\<close> is the read \<open>v?.k\<close> for the keys the client reads (\<open>response\<close>,
  \<open>data\<close>, \<open>error\<close>, \<open>message\<close>, \<open>code\<close>, \<open>details\<close>, \<open>status\<close>,
  \<open>headers\<close>, \<open>x-request-id\<close>): an own property of an object, and
  \<open>undefined\<close> on anything else, since no string, number, boolean or array has one of
  these and no object inherits one. The plain read \<open>v.k\<close> differs on \<open>null\<close> and
  \<open>undefined\<close> only, where it throws a \<open>TypeError\<close>.
\<close>

fun js_get :: "jsval \<Rightarrow> string \<Rightarrow> jsval" where
  "js_get (JObj kvs) k = (case map_of kvs k of None \<Rightarrow> JUndefined | Some v \<Rightarrow> v)"
| "js_get v k = JUndefined"

text \<open>
  The conversion \<open>ToString\<close> that \<open>Error\<close>'s constructor applies to its message;
  \<open>None\<close> where it throws a \<open>TypeError\<close>. An array is joined with commas, a
  \<open>null\<close> or \<open>undefined\<close> element giving the empty text. An object prints as
  \<open>[object Object]\<close> through the inherited \<open>toString\<close>; an own \<open>toString\<close>
  property (never a function in these values) hides that one, the inherited
  \<open>valueOf\<close> returns the object itself, and the conversion throws.
\<close>

fun join_comma :: "string list \<Rightarrow> string" where
  "join_comma [] = []"
| "join_comma [x] = x"
| "join_comma (x # y # rest) = x @ '','' @ join_comma (y # rest)"

fun js_to_string :: "jsval \<Rightarrow> string option" where
  "js_to_string JUndefined = Some ''undefined''"
| "js_to_string JNull = Some ''null''"
| "js_to_string (JBool b) = Some (if b then ''true'' else ''false'')"
| "js_to_string (JNum t) = Some t"
| "js_to_string (JStr s) = Some s"
| "js_to_string (JArr xs) =
     map_option join_comma
       (those (map (\<lambda>x. if x = JUndefined \<or> x = JNull then Some [] else js_to_string x) xs))"
| "js_to_string (JObj kvs) =
     (if ''toString'' \<in> fst ` set kvs then None else Some ''[object Object]'')"

text \<open>
  Fields of the configuration, which the source declares as \<open>string\<close> or
  \<open>number\<close> and tests with \<open>!\<close> or \<open>||\<close>, are options: \<open>None\<close> is
  \<open>undefined\<close>. An empty string and the number zero are falsy.
\<close>

definition str_truthy :: "string option \<Rightarrow> bool" where
  "str_truthy a = (case a of None \<Rightarrow> False | Some s \<Rightarrow> s \<noteq> [])"

definition num_truthy :: "nat option \<Rightarrow> bool" where
  "num_truthy a = (case a of None \<Rightarrow> False | Some n \<Rightarrow> n \<noteq> 0)"

definition str_or :: "string option \<Rightarrow> string \<Rightarrow> string" where
  "str_or a b = (case a of None \<Rightarrow> b | Some s \<Rightarrow> if s \<noteq> [] then s else b)"

definition num_or :: "nat option \<Rightarrow> nat \<Rightarrow> nat" where
  "num_or a b = (case a of None \<Rightarrow> b | Some n \<Rightarrow> if n \<noteq> 0 then n else b)"

text \<open>
  A declared string read where the code has already checked that it is set, and the same
  field inside a template literal (\<open>`Bearer ${x}`\<close>), which prints
  \<open>undefined\<close> for a missing one.
\<close>

definition str_val :: "string option \<Rightarrow> string" where
  "str_val a = (case a of None \<Rightarrow> [] | Some s \<Rightarrow> s)"

definition num_val :: "nat option \<Rightarrow> nat" where
  "num_val a = (case a of None \<Rightarrow> 0 | Some n \<Rightarrow> n)"

definition template_str :: "string option \<Rightarrow> string" where
  "template_str a = (case a of None \<Rightarrow> ''undefined'' | Some s \<Rightarrow> s)"

text \<open>
  \<open>class NeuralNexusError extends Error\<close> (types/index.ts). The constructor passes
  the message to \<open>Error\<close>, which converts it to a string (an \<open>undefined\<close> one
  leaves the empty message of the prototype), stores code and details as they are, and
  sets the name. \<open>new_NeuralNexusError\<close> is a call with a string
  message and a string code, as every call but the interceptor's is;
  \<open>new_NeuralNexusError_any\<close> is the call with untyped arguments.
\<close>

record NeuralNexusError =
  nn_name :: string
  nn_message :: string
  nn_code :: jsval
  nn_details :: jsval

definition new_NeuralNexusError :: "string \<Rightarrow> string \<Rightarrow> jsval \<Rightarrow> NeuralNexusError" where
  "new_NeuralNexusError message code details =
     \<lparr>nn_name = ''NeuralNexusError'', nn_message = message, nn_code = JStr code,
      nn_details = details\<rparr>"

text \<open>
  A thrown value (or the reason of a rejected promise) is either a
  \<open>NeuralNexusError\<close> or something else; \<open>instanceof NeuralNexusError\<close> in the
  catch blocks tells them apart.
\<close>

datatype thrown = ThrownNN NeuralNexusError | ThrownOther jsval

definition type_error :: thrown where
  "type_error = ThrownOther (JObj [(''name'', JStr ''TypeError'')])"

definition new_NeuralNexusError_any :: "jsval \<Rightarrow> jsval \<Rightarrow> jsval \<Rightarrow> thrown + NeuralNexusError" where
  "new_NeuralNexusError_any message code details =
     (case (if message = JUndefined then Some [] else js_to_string message) of
        None \<Rightarrow> Inl type_error
      | Some m \<Rightarrow>
          Inr \<lparr>nn_name = ''NeuralNexusError'', nn_message = m, nn_code = code,
               nn_details = details\<rparr>)"

text \<open>The string values of \<open>enum NeuralNexusEvent\<close> that the client itself emits.\<close>

abbreviation CONNECTED :: string where "CONNECTED \<equiv> ''connected''"
abbreviation DISCONNECTED :: string where "DISCONNECTED \<equiv> ''disconnected''"
abbreviation ERROR :: string where "ERROR \<equiv> ''error''"

section \<open>Configuration\<close>

text \<open>
  \<open>interface NeuralNexusConfig\<close>. The two mandatory fields are options as well:
  the constructor tests them with \<open>!\<close>, and the repository's tests new_NeuralNexus a client
  without them.
\<close>

record NeuralNexusConfig =
  apiKey :: "string option"
  environment :: "string option"
  apiUrl :: "string option"
  timeout :: "nat option"
  storageProvider :: "string option"
  storageConfig :: "jsval option"
  authConfig :: "jsval option"
  keyType :: "string option"

definition getDefaultApiUrl :: "string \<Rightarrow> string" where
  "getDefaultApiUrl env =
     (if env = ''production'' then ''https://api.neuralnexus.ai/v1''
      else ''https://api.dev.neuralnexus.ai/v1'')"

definition keyPrefixes :: "(string \<times> string) list" where
  "keyPrefixes =
     [(''nxt_'', ''test''), (''nnd_'', ''development''), (''ntr_'', ''training''),
      (''ndp_'', ''deployment''), (''npr_'', ''production'')]"

text \<open>
  \<open>validateApiKey\<close>: an unknown prefix only logs a warning; a known one records the
  key type in the configuration.
\<close>

definition validateApiKey :: "string \<Rightarrow> NeuralNexusConfig \<Rightarrow> NeuralNexusConfig" where
  "validateApiKey key cfg =
     (case map_of keyPrefixes (take 4 key) of
        None \<Rightarrow> cfg
      | Some keyType' \<Rightarrow> cfg\<lparr>keyType := Some keyType'\<rparr>)"

section \<open>The HTTP instance\<close>

type_synonym headers = "(string \<times> string) list"

text \<open>
  The state of the axios instance that the client reads and writes. \<open>axios.create\<close>
  stores the \<open>headers\<close> of its configuration on the instance's
  \<open>defaults.headers\<close> itself (\<open>headers_own\<close>); \<open>defaults.headers.common\<close>
  (\<open>headers_common\<close>) is a separate object, the one \<open>setToken\<close> and
  \<open>clearToken\<close> assign to. The library's stock entries of \<open>common\<close> (an
  \<open>Accept\<close> header) are left out: the client never reads them.
\<close>

record axios_instance =
  baseURL :: string
  timeout_ms :: nat
  headers_own :: headers
  headers_common :: headers

definition axios_create :: "string \<Rightarrow> nat \<Rightarrow> headers \<Rightarrow> axios_instance" where
  "axios_create url ms hs =
     \<lparr>baseURL = url, timeout_ms = ms, headers_own = hs, headers_common = []\<rparr>"

definition assign_header :: "string \<Rightarrow> string \<Rightarrow> headers \<Rightarrow> headers" where
  "assign_header k v hs = (k, v) # filter (\<lambda>kv. fst kv \<noteq> k) hs"

section \<open>The event emitter\<close>

text \<open>
  The client extends Node's \<open>EventEmitter\<close>. The registry maps an event name to its
  listeners in registration order. A listener is a callback: its identity and what it
  throws, if anything, when called with a payload; what else its body does is
  application code outside this development. The emitter's own events about listeners
  (\<open>newListener\<close>, \<open>removeListener\<close>) are left out. \<open>emitted\<close> is a log of the
  \<open>emit\<close> calls made on the instance, each with the listeners it invoked, in order.
\<close>

datatype payload = NoPayload | ErrorPayload NeuralNexusError | ValuePayload jsval

record listener =
  lid :: nat
  throws :: "payload \<Rightarrow> thrown option"

type_synonym emission = "string \<times> payload \<times> listener list"

record NeuralNexus =
  config :: NeuralNexusConfig
  axiosInstance :: axios_instance
  token :: "string option"
  refreshTimer :: "nat option"
  listeners :: "string \<Rightarrow> listener list"
  emitted :: "emission list"

text \<open>
  What \<open>emit('error', ...)\<close> throws when no listener is registered for
  \<open>'error'\<close>: the payload itself when it is an \<open>Error\<close>, else an
  \<open>ERR_UNHANDLED_ERROR\<close> wrapping it.
\<close>

fun unhandled :: "payload \<Rightarrow> thrown" where
  "unhandled (ErrorPayload e) = ThrownNN e"
| "unhandled (ValuePayload v) =
     ThrownOther (JObj [(''code'', JStr ''ERR_UNHANDLED_ERROR''), (''context'', v)])"
| "unhandled NoPayload =
     ThrownOther (JObj [(''code'', JStr ''ERR_UNHANDLED_ERROR''), (''context'', JUndefined)])"

text \<open>
  The listeners are called in order, with nothing to catch what one throws: the first
  that throws ends the emission, and the listeners after it are not called. The result
  are the listeners invoked and what was thrown.
\<close>

fun run_listeners :: "payload \<Rightarrow> listener list \<Rightarrow> listener list \<times> thrown option" where
  "run_listeners p [] = ([], None)"
| "run_listeners p (l # ls) =
     (case throws l p of
        Some t \<Rightarrow> ([l], Some t)
      | None \<Rightarrow> (case run_listeners p ls of (invoked, r) \<Rightarrow> (l # invoked, r)))"

text \<open>
  \<open>emit\<close> returns whether the event had a listener, or throws: what a listener
  threw, or the \<open>'error'\<close> event itself when it has no listener.
\<close>

definition emit :: "string \<Rightarrow> payload \<Rightarrow> NeuralNexus \<Rightarrow> (thrown + bool) \<times> NeuralNexus" where
  "emit ev p c =
     (let ls = listeners c ev
      in if ev = ERROR \<and> ls = [] then
           (Inl (unhandled p), c\<lparr>emitted := emitted c @ [(ev, p, [])]\<rparr>)
         else
           (case run_listeners p ls of
              (invoked, Some t) \<Rightarrow> (Inl t, c\<lparr>emitted := emitted c @ [(ev, p, invoked)]\<rparr>)
            | (invoked, None) \<Rightarrow>
                (Inr (ls \<noteq> []), c\<lparr>emitted := emitted c @ [(ev, p, invoked)]\<rparr>)))"


definition removeAllListeners :: "NeuralNexus \<Rightarrow> NeuralNexus" where
  "removeAllListeners c = c\<lparr>listeners := (\<lambda>ev. [])\<rparr>"

section \<open>Construction\<close>

text \<open>
  The constructor: validation of the two mandatory fields, defaults, the HTTP instance
  with its two headers, the key-type check, and the \<open>connected\<close> emission last. The
  response interceptor it installs is \<open>interceptor\<close> below; the \<open>SdkManager\<close> it
  creates only keeps a reference to the client.
\<close>

definition new_NeuralNexus :: "NeuralNexusConfig \<Rightarrow> thrown + NeuralNexus" where
  "new_NeuralNexus cfg =
     (if \<not> str_truthy (apiKey cfg) then
        Inl (ThrownNN (new_NeuralNexusError
          ''API key is required to initialize the Neural Nexus client''
          ''INVALID_CONFIG'' JUndefined))
      else if \<not> str_truthy (environment cfg) then
        Inl (ThrownNN (new_NeuralNexusError
          ''Environment (production or development) must be specified''
          ''INVALID_CONFIG'' JUndefined))
      else
        (let cfg1 = cfg\<lparr>apiUrl := Some (str_or (apiUrl cfg)
                                    (getDefaultApiUrl (str_val (environment cfg)))),
                       timeout := Some (num_or (timeout cfg) 30000),
                       storageProvider := Some (str_or (storageProvider cfg) ''google'')\<rparr>;
             ax = axios_create (str_val (apiUrl cfg1)) (num_val (timeout cfg1))
                    [(''Content-Type'', ''application/json''),
                     (''Authorization'', ''Bearer '' @ template_str (apiKey cfg1))];
             cfg2 = validateApiKey (str_val (apiKey cfg1)) cfg1;
             c0 = \<lparr>config = cfg2, axiosInstance = ax, token = None, refreshTimer = None,
                   listeners = (\<lambda>ev. []), emitted = []\<rparr>
         in case emit CONNECTED NoPayload c0 of
              (Inl t, c1) \<Rightarrow> Inl t
            | (Inr b, c1) \<Rightarrow> Inr c1))"

section \<open>The error normalizer\<close>

text \<open>
  The error handler of the response interceptor, first half: the three \<open>||\<close> chains
  over the failure value and the construction of the error. The failure value is
  untyped; \<open>error.response\<close> throws on \<open>null\<close> and \<open>undefined\<close>, every
  other read is guarded by \<open>?.\<close> or comes after it.
\<close>

definition normalize_error :: "jsval \<Rightarrow> thrown + NeuralNexusError" where
  "normalize_error error =
     (if error = JUndefined \<or> error = JNull then Inl type_error
      else
        (let response = js_get error ''response'';
             body = js_get response ''data'';
             nested = js_get body ''error'';
             errorMessage =
               js_or (js_or (js_or (js_get nested ''message'') (js_get body ''message''))
                        (js_get error ''message''))
                 (JStr ''Unknown error occurred'');
             errorCode =
               js_or (js_or (js_get nested ''code'') (js_get body ''code'')) (JStr ''API_ERROR'');
             errorDetails =
               js_or (js_or (js_get nested ''details'') (js_get body ''details''))
                 (JObj [(''status'', js_get response ''status''),
                        (''request_id'', js_get (js_get response ''headers'') ''x-request-id'')])
         in new_NeuralNexusError_any errorMessage errorCode errorDetails))"

text \<open>
  Second half: the \<open>error\<close> emission, then the rejection with the normalized error.
  The handler's promise is rejected with whatever the handler throws instead: a
  \<open>TypeError\<close> from the first half, the normalized error itself when no listener is
  registered for \<open>'error'\<close>, or what a listener threw.
\<close>

definition interceptor :: "jsval \<Rightarrow> NeuralNexus \<Rightarrow> thrown \<times> NeuralNexus" where
  "interceptor error c =
     (case normalize_error error of
        Inl t \<Rightarrow> (t, c)
      | Inr neuralNexusError \<Rightarrow>
          (case emit ERROR (ErrorPayload neuralNexusError) c of
             (Inl t, c') \<Rightarrow> (t, c')
           | (Inr b, c') \<Rightarrow> (ThrownNN neuralNexusError, c')))"

section \<open>Requests\<close>

text \<open>A response of a successful exchange; its body is passed on as it is.\<close>

record http_response =
  resp_status :: nat
  resp_data :: jsval

datatype http_method = GET | POST | PUT | DELETE

record request =
  req_method :: http_method
  req_baseURL :: string
  req_url :: string
  req_timeout :: nat
  req_headers :: "string \<rightharpoonup> string"
  req_params :: jsval
  req_data :: jsval
  req_responseType :: "string option"

text \<open>
  The headers of an outgoing request, as the HTTP library (axios 1.x, the version the
  package depends on) computes them when a request is made: the entries of
  \<open>defaults.headers.common\<close> (and of the method's defaults, empty in that version)
  are the base, and the instance's own entries of \<open>defaults.headers\<close>, merged with
  the headers of the call, are set over them
  (\<open>AxiosHeaders.concat(contextHeaders, headers)\<close> in \<open>Axios.request\<close>); a
  later entry replaces an earlier one of the same name. \<open>make_request\<close> is the
  request the instance sends for a call.
\<close>

definition flatten_headers :: "axios_instance \<Rightarrow> headers \<Rightarrow> (string \<rightharpoonup> string)" where
  "flatten_headers ax call = map_of (headers_common ax) ++ map_of (headers_own ax) ++ map_of call"

definition make_request ::
    "NeuralNexus \<Rightarrow> http_method \<Rightarrow> string \<Rightarrow> jsval \<Rightarrow> jsval \<Rightarrow> headers \<Rightarrow> string option \<Rightarrow> request" where
  "make_request c m endpoint params body call rt =
     \<lparr>req_method = m, req_baseURL = baseURL (axiosInstance c), req_url = endpoint,
      req_timeout = timeout_ms (axiosInstance c),
      req_headers = flatten_headers (axiosInstance c) call,
      req_params = params, req_data = body, req_responseType = rt\<rparr>"

text \<open>
  The network is a parameter: a transport answers a request with a response or with a
  failure value. A failure goes through the response interceptor.
\<close>

type_synonym transport = "request \<Rightarrow> jsval + http_response"

definition axios_request ::
    "transport \<Rightarrow> request \<Rightarrow> NeuralNexus \<Rightarrow> (thrown + http_response) \<times> NeuralNexus" where
  "axios_request tr req c =
     (case tr req of
        Inr response \<Rightarrow> (Inr response, c)
      | Inl error \<Rightarrow> (case interceptor error c of (t, c') \<Rightarrow> (Inl t, c')))"

text \<open>
  The \<open>try\<close>/\<open>catch\<close> every request method wraps around its call: a
  \<open>NeuralNexusError\<close> is thrown on as it is, anything else is wrapped.
\<close>

definition wrap_failure :: "string \<Rightarrow> thrown \<Rightarrow> NeuralNexusError" where
  "wrap_failure msg t =
     (case t of
        ThrownNN e \<Rightarrow> e
      | ThrownOther v \<Rightarrow> new_NeuralNexusError msg ''API_REQUEST_FAILED'' v)"

type_synonym 'a outcome = "(NeuralNexusError + 'a) \<times> NeuralNexus"

definition get :: "transport \<Rightarrow> string \<Rightarrow> jsval \<Rightarrow> NeuralNexus \<Rightarrow> jsval outcome" where
  "get tr endpoint params c =
     (case axios_request tr (make_request c GET endpoint params JUndefined [] None) c of
        (Inr response, c') \<Rightarrow> (Inr (resp_data response), c')
      | (Inl t, c') \<Rightarrow> (Inl (wrap_failure (''Failed to fetch data from '' @ endpoint) t), c'))"

definition post :: "transport \<Rightarrow> string \<Rightarrow> jsval \<Rightarrow> NeuralNexus \<Rightarrow> jsval outcome" where
  "post tr endpoint body c =
     (case axios_request tr (make_request c POST endpoint JUndefined body [] None) c of
        (Inr response, c') \<Rightarrow> (Inr (resp_data response), c')
      | (Inl t, c') \<Rightarrow> (Inl (wrap_failure (''Failed to post data to '' @ endpoint) t), c'))"

definition put :: "transport \<Rightarrow> string \<Rightarrow> jsval \<Rightarrow> NeuralNexus \<Rightarrow> jsval outcome" where
  "put tr endpoint body c =
     (case axios_request tr (make_request c PUT endpoint JUndefined body [] None) c of
        (Inr response, c') \<Rightarrow> (Inr (resp_data response), c')
      | (Inl t, c') \<Rightarrow> (Inl (wrap_failure (''Failed to update data at '' @ endpoint) t), c'))"

definition delete :: "transport \<Rightarrow> string \<Rightarrow> jsval \<Rightarrow> NeuralNexus \<Rightarrow> jsval outcome" where
  "delete tr endpoint params c =
     (case axios_request tr (make_request c DELETE endpoint params JUndefined [] None) c of
        (Inr response, c') \<Rightarrow> (Inr (resp_data response), c')
      | (Inl t, c') \<Rightarrow> (Inl (wrap_failure (''Failed to delete data at '' @ endpoint) t), c'))"

section \<open>Session token\<close>

definition setToken :: "string \<Rightarrow> NeuralNexus \<Rightarrow> NeuralNexus" where
  "setToken t c =
     c\<lparr>token := Some t,
       axiosInstance := (axiosInstance c)\<lparr>headers_common :=
         assign_header ''Authorization'' (''Bearer '' @ t)
           (headers_common (axiosInstance c))\<rparr>\<rparr>"

definition clearToken :: "NeuralNexus \<Rightarrow> NeuralNexus" where
  "clearToken c =
     c\<lparr>token := None,
       axiosInstance := (axiosInstance c)\<lparr>headers_common :=
         assign_header ''Authorization'' (''Bearer '' @ template_str (apiKey (config c)))
           (headers_common (axiosInstance c))\<rparr>\<rparr>"

definition getConfig :: "NeuralNexus \<Rightarrow> NeuralNexusConfig" where
  "getConfig c = config c"

section \<open>Closing\<close>

text \<open>
  \<open>close\<close>: stop the refresh timer if one runs, emit \<open>disconnected\<close>, then remove
  every listener. When the emission throws, \<open>close\<close> throws with it and the removal
  is not reached.
\<close>

definition close :: "NeuralNexus \<Rightarrow> thrown option \<times> NeuralNexus" where
  "close c =
     (let c1 = (if refreshTimer c \<noteq> None then c\<lparr>refreshTimer := None\<rparr> else c)
      in case emit DISCONNECTED NoPayload c1 of
           (Inl t, c2) \<Rightarrow> (Some t, c2)
         | (Inr b, c2) \<Rightarrow> (None, removeAllListeners c2))"

section \<open>Upload\<close>

text \<open>
  A progress event of the transport: the bytes sent so far and, when the size of the
  payload is known, the total. Byte counts are whole numbers below \<open>2^53\<close>, which the
  number type of the source holds exactly.
\<close>

record progress_event =
  loaded :: nat
  total_bytes :: "nat option"

text \<open>
  The quotient \<open>a / b\<close> of the source is a division of doubles: the result is the
  double nearest to the exact quotient, a tie going to the even significand. For whole
  numbers \<open>0 < a < 2^53\<close> and \<open>0 < b < 2^53\<close>, the range these definitions are
  for, \<open>scale_of a b 0\<close> is the \<open>s\<close> with \<open>2^52 \<le> a * 2^s / b < 2^53\<close>, and
  the double is \<open>m / 2^s\<close> with \<open>m\<close> the integer nearest to \<open>a * 2^s / b\<close>
  (\<open>rne_div\<close>); \<open>double_div\<close> gives the pair \<open>(m, s)\<close>. A zero dividend gives
  zero.
\<close>

function scale_of :: "nat \<Rightarrow> nat \<Rightarrow> nat \<Rightarrow> nat" where
  "scale_of a b s = (if a = 0 \<or> 2 ^ 52 * b \<le> a * 2 ^ s then s else scale_of a b (Suc s))"
  by pat_completeness auto
termination
proof (relation "measure (\<lambda>(a, b, s). 2 ^ 52 * b - a * 2 ^ s)")
  show "wf (measure (\<lambda>(a, b, s). 2 ^ 52 * b - a * 2 ^ s))" by simp
next
  fix a b s :: nat
  assume "\<not> (a = 0 \<or> 2 ^ 52 * b \<le> a * 2 ^ s)"
  then have "0 < a" and "a * 2 ^ s < 2 ^ 52 * b" by simp_all
  moreover have "a * 2 ^ s < a * 2 ^ Suc s" using \<open>0 < a\<close> by simp
  ultimately have "2 ^ 52 * b - a * 2 ^ Suc s < 2 ^ 52 * b - a * 2 ^ s"
    by (intro diff_less_mono2) simp_all
  then show "((a, b, Suc s), (a, b, s)) \<in> measure (\<lambda>(a, b, s). 2 ^ 52 * b - a * 2 ^ s)"
    by simp
qed

declare scale_of.simps [simp del]

definition rne_div :: "nat \<Rightarrow> nat \<Rightarrow> nat" where
  "rne_div n b =
     (if 2 * (n mod b) < b then n div b
      else if b < 2 * (n mod b) then n div b + 1
      else if even (n div b) then n div b else n div b + 1)"

definition double_div :: "nat \<Rightarrow> nat \<Rightarrow> nat \<times> nat" where
  "double_div a b = (rne_div (a * 2 ^ scale_of a b 0) b, scale_of a b 0)"

text \<open>
  \<open>Math.round\<close> of the double \<open>m / 2^s\<close>: the nearest integer, a half rounded up
  (lemma \<open>math_round_floor\<close>).
\<close>

definition math_round :: "nat \<times> nat \<Rightarrow> nat" where
  "math_round d = (2 * fst d + 2 ^ snd d) div (2 * 2 ^ snd d)"

text \<open>
  The \<open>onUploadProgress\<close> handler: \<open>has_cb\<close> says whether the caller passed
  \<open>onProgress\<close>; the list collects the arguments of its invocations, in order. The
  product \<open>loaded * 100\<close> is exact as long as it stays below \<open>2^53\<close>.
\<close>

definition onUploadProgress :: "bool \<Rightarrow> progress_event \<Rightarrow> nat list \<Rightarrow> nat list" where
  "onUploadProgress has_cb progressEvent reported =
     (case total_bytes progressEvent of
        None \<Rightarrow> reported
      | Some t \<Rightarrow>
          if has_cb \<and> t \<noteq> 0
          then reported @ [math_round (double_div (loaded progressEvent * 100) t)]
          else reported)"

definition report_progress :: "bool \<Rightarrow> progress_event list \<Rightarrow> nat list" where
  "report_progress has_cb evs = foldl (\<lambda>reported ev. onUploadProgress has_cb ev reported) [] evs"

text \<open>
  \<open>upload\<close>: a POST whose call sets the multipart content type. \<open>progress\<close> are
  the progress events the transport reports during the exchange; the second component
  of the result are the percentages passed to \<open>onProgress\<close>.
\<close>

definition upload ::
    "transport \<Rightarrow> string \<Rightarrow> jsval \<Rightarrow> bool \<Rightarrow> progress_event list \<Rightarrow> NeuralNexus \<Rightarrow>
       (NeuralNexusError + jsval) \<times> nat list \<times> NeuralNexus" where
  "upload tr endpoint formData has_cb progress c =
     (case axios_request tr
             (make_request c POST endpoint JUndefined formData
                [(''Content-Type'', ''multipart/form-data'')] None) c of
        (Inr response, c') \<Rightarrow> (Inr (resp_data response), report_progress has_cb progress, c')
      | (Inl t, c') \<Rightarrow>
          (Inl (wrap_failure (''Failed to upload data to '' @ endpoint) t),
           report_progress has_cb progress, c'))"

section \<open>Streaming\<close>

text \<open>
  The completion promise of \<open>stream\<close> and the invocations of \<open>onChunk\<close> so far.
  Resolving or rejecting a settled promise does nothing.
\<close>

datatype promise_state = Pending | Resolved | Rejected NeuralNexusError

record 'a stream_state =
  promise :: promise_state
  calls :: "'a list"

definition resolve :: "'a stream_state \<Rightarrow> 'a stream_state" where
  "resolve st = (if promise st = Pending then st\<lparr>promise := Resolved\<rparr> else st)"

definition reject :: "NeuralNexusError \<Rightarrow> 'a stream_state \<Rightarrow> 'a stream_state" where
  "reject e st = (if promise st = Pending then st\<lparr>promise := Rejected e\<rparr> else st)"

text \<open>
  \<open>chunk.toString().split('\n')\<close> and the filter on \<open>line.trim() !== ''\<close>.
  Characters are bytes here and \<open>is_space\<close> is the ASCII white space; the filter
  never removes a line the loop acts on (lemma \<open>blank_lines_irrelevant\<close>), whatever
  counts as white space.
\<close>

fun split_nl :: "string \<Rightarrow> string list" where
  "split_nl [] = [[]]"
| "split_nl (c # cs) =
     (if c = CHR 0x0A then [] # split_nl cs
      else (case split_nl cs of [] \<Rightarrow> [[c]] | l # ls \<Rightarrow> (c # l) # ls))"

definition is_space :: "char \<Rightarrow> bool" where
  "is_space c =
     (c = CHR 0x09 \<or> c = CHR 0x0A \<or> c = CHR 0x0B \<or> c = CHR 0x0C \<or> c = CHR 0x0D \<or> c = CHR 0x20)"

definition blank :: "string \<Rightarrow> bool" where
  "blank line = list_all is_space line"

definition chunk_lines :: "string \<Rightarrow> string list" where
  "chunk_lines chunk = filter (\<lambda>line. \<not> blank line) (split_nl chunk)"

text \<open>
  The loop of the \<open>data\<close> handler over the lines of one chunk. \<open>parse\<close> is
  \<open>JSON.parse\<close>, \<open>None\<close> where it throws; the inner \<open>catch\<close> swallows that
  (and anything \<open>onChunk\<close> throws). At the sentinel the handler resolves the promise
  and returns. Nothing in the handler reaches its outer \<open>catch\<close>.
\<close>

fun process_lines :: "(string \<Rightarrow> 'a option) \<Rightarrow> string list \<Rightarrow> 'a stream_state \<Rightarrow> 'a stream_state" where
  "process_lines parse [] st = st"
| "process_lines parse (line # rest) st =
     (if take 6 line = ''data: '' then
        (if drop 6 line = ''[DONE]'' then resolve st
         else (case parse (drop 6 line) of
                 Some parsedData \<Rightarrow>
                   process_lines parse rest (st\<lparr>calls := calls st @ [parsedData]\<rparr>)
               | None \<Rightarrow> process_lines parse rest st))
      else process_lines parse rest st)"

definition on_data :: "(string \<Rightarrow> 'a option) \<Rightarrow> string \<Rightarrow> 'a stream_state \<Rightarrow> 'a stream_state" where
  "on_data parse chunk st = process_lines parse (chunk_lines chunk) st"

text \<open>The events of the response stream and their three handlers.\<close>

datatype stream_event = Data string | End | StreamError jsval

fun on_event :: "(string \<Rightarrow> 'a option) \<Rightarrow> stream_event \<Rightarrow> 'a stream_state \<Rightarrow> 'a stream_state" where
  "on_event parse (Data chunk) st = on_data parse chunk st"
| "on_event parse End st = resolve st"
| "on_event parse (StreamError err) st =
     reject (new_NeuralNexusError ''Stream error'' ''STREAM_ERROR'' err) st"

definition run_stream :: "(string \<Rightarrow> 'a option) \<Rightarrow> stream_event list \<Rightarrow> 'a stream_state \<Rightarrow> 'a stream_state" where
  "run_stream parse evs st = foldl (\<lambda>s ev. on_event parse ev s) st evs"

text \<open>
  \<open>stream\<close>: a POST with \<open>responseType: 'stream'\<close>; on a response, the three
  handlers are attached and run on the events \<open>evs\<close> of the response stream. The
  result is the state of the returned promise after these events, the invocations of
  \<open>onChunk\<close>, and the client.
\<close>

definition stream ::
    "transport \<Rightarrow> string \<Rightarrow> jsval \<Rightarrow> (string \<Rightarrow> 'a option) \<Rightarrow> stream_event list \<Rightarrow> NeuralNexus \<Rightarrow>
       promise_state \<times> 'a list \<times> NeuralNexus" where
  "stream tr endpoint body parse evs c =
     (case axios_request tr (make_request c POST endpoint JUndefined body [] (Some ''stream'')) c of
        (Inr response, c') \<Rightarrow>
          (let st = run_stream parse evs \<lparr>promise = Pending, calls = []\<rparr>
           in (promise st, calls st, c'))
      | (Inl t, c') \<Rightarrow>
          (Rejected (wrap_failure (''Failed to stream data from '' @ endpoint) t), [], c'))"

text \<open>
  A decoder for closed examples: \<open>JSON.parse\<close> on the texts that are an unsigned
  decimal integer. Every other text counts as undecodable, so it stands for
  \<open>JSON.parse\<close> only on chunks whose frames are such integers or are not JSON.
\<close>

definition is_digit :: "char \<Rightarrow> bool" where
  "is_digit c = (CHR ''0'' \<le> c \<and> c \<le> CHR ''9'')"

definition json_nat :: "string \<Rightarrow> nat option" where
  "json_nat s =
     (if s \<noteq> [] \<and> list_all is_digit s \<and> (length s = 1 \<or> hd s \<noteq> CHR ''0'')
      then Some (foldl (\<lambda>n c. 10 * n + (of_char c - 48)) 0 s)
      else None)"

section \<open>Notions of the specification\<close>

text \<open>
  The priority orders in the words of the specification: the first candidate that is
  truthy, else the fallback; and the candidates the normalizer chooses from.
\<close>

fun first_truthy :: "jsval list \<Rightarrow> jsval \<Rightarrow> jsval" where
  "first_truthy [] fallback = fallback"
| "first_truthy (v # rest) fallback = (if js_truthy v then v else first_truthy rest fallback)"

definition error_body :: "jsval \<Rightarrow> jsval" where
  "error_body error = js_get (js_get error ''response'') ''data''"

definition nested_error :: "jsval \<Rightarrow> jsval" where
  "nested_error error = js_get (error_body error) ''error''"

definition synthesized_details :: "jsval \<Rightarrow> jsval" where
  "synthesized_details error =
     JObj [(''status'', js_get (js_get error ''response'') ''status''),
           (''request_id'', js_get (js_get (js_get error ''response'') ''headers'') ''x-request-id'')]"

definition message_candidate :: "jsval \<Rightarrow> jsval" where
  "message_candidate error =
     first_truthy [js_get (nested_error error) ''message'', js_get (error_body error) ''message'',
                   js_get error ''message''] (JStr ''Unknown error occurred'')"

definition code_candidate :: "jsval \<Rightarrow> jsval" where
  "code_candidate error =
     first_truthy [js_get (nested_error error) ''code'', js_get (error_body error) ''code'']
       (JStr ''API_ERROR'')"

definition details_candidate :: "jsval \<Rightarrow> jsval" where
  "details_candidate error =
     first_truthy [js_get (nested_error error) ''details'', js_get (error_body error) ''details'']
       (synthesized_details error)"

text \<open>A listener that returns normally on the payload, and a registry of such.\<close>

definition quiet :: "payload \<Rightarrow> listener \<Rightarrow> bool" where
  "quiet p l = (throws l p = None)"

text \<open>
  What a failed exchange does, in the words of the amended claim C6. If building the
  normalized error throws, the caller is raised that wrapped as
  \<open>API_REQUEST_FAILED\<close> and nothing is emitted. Otherwise there is one \<open>error\<close>
  emission carrying the normalized error, and the caller is raised that error, or, if a
  listener threw, what the listener threw (wrapped unless it is a
  \<open>NeuralNexusError\<close>).
\<close>

definition failed_exchange :: "string \<Rightarrow> jsval \<Rightarrow> NeuralNexus \<Rightarrow> NeuralNexusError \<times> NeuralNexus" where
  "failed_exchange msg error c =
     (case normalize_error error of
        Inl t \<Rightarrow> (wrap_failure msg t, c)
      | Inr e \<Rightarrow>
          ((case snd (run_listeners (ErrorPayload e) (listeners c ERROR)) of
              None \<Rightarrow> e
            | Some t \<Rightarrow> wrap_failure msg t),
           c\<lparr>emitted := emitted c @
                [(ERROR, ErrorPayload e, fst (run_listeners (ErrorPayload e) (listeners c ERROR)))]\<rparr>))"

text \<open>
  The frames of a chunk in the words of the specification: the lines before the first
  sentinel line, and of these the lines with the \<open>data: \<close> prefix whose rest
  decodes, in order.
\<close>

definition frame_of :: "(string \<Rightarrow> 'a option) \<Rightarrow> string \<Rightarrow> 'a option" where
  "frame_of parse line = (if take 6 line = ''data: '' then parse (drop 6 line) else None)"

definition frames_of_lines :: "(string \<Rightarrow> 'a option) \<Rightarrow> string list \<Rightarrow> 'a list" where
  "frames_of_lines parse ls =
     List.map_filter (frame_of parse) (takeWhile (\<lambda>line. line \<noteq> ''data: [DONE]'') ls)"

definition chunk_frames :: "(string \<Rightarrow> 'a option) \<Rightarrow> string \<Rightarrow> 'a list" where
  "chunk_frames parse chunk = frames_of_lines parse (chunk_lines chunk)"

fun event_frames :: "(string \<Rightarrow> 'a option) \<Rightarrow> stream_event \<Rightarrow> 'a list" where
  "event_frames parse (Data chunk) = chunk_frames parse chunk"
| "event_frames parse End = []"
| "event_frames parse (StreamError err) = []"

text \<open>
  The percentage in the words of the specification: the exact quotient rounded to the
  nearest integer, a half rounded up (lemma \<open>round_half_up_floor\<close>).
\<close>

definition round_half_up :: "nat \<Rightarrow> nat \<Rightarrow> nat" where
  "round_half_up a b = (2 * a + b) div (2 * b)"

text \<open>The value of the double \<open>m / 2^s\<close>.\<close>

definition dval :: "nat \<times> nat \<Rightarrow> real" where
  "dval d = real (fst d) / 2 ^ snd d"

section \<open>Examples used by the closed theorems\<close>

definition example_config :: NeuralNexusConfig where
  "example_config =
     \<lparr>apiKey = Some ''nxt_k'', environment = Some ''production'', apiUrl = None,
      timeout = None, storageProvider = None, storageConfig = None, authConfig = None,
      keyType = None\<rparr>"

text \<open>The client \<open>new NeuralNexus(example_config)\<close> returns (lemma \<open>example_client_constructed\<close>).\<close>

definition example_client :: NeuralNexus where
  "example_client =
     \<lparr>config =
        \<lparr>apiKey = Some ''nxt_k'', environment = Some ''production'',
         apiUrl = Some ''https://api.neuralnexus.ai/v1'', timeout = Some 30000,
         storageProvider = Some ''google'', storageConfig = None, authConfig = None,
         keyType = Some ''test''\<rparr>,
      axiosInstance =
        \<lparr>baseURL = ''https://api.neuralnexus.ai/v1'', timeout_ms = 30000,
         headers_own =
           [(''Content-Type'', ''application/json''), (''Authorization'', ''Bearer nxt_k'')],
         headers_common = []\<rparr>,
      token = None, refreshTimer = None, listeners = (\<lambda>ev. []),
      emitted = [(CONNECTED, NoPayload, [])]\<rparr>"

text \<open>A transport that answers every request with the same successful response.\<close>

definition ok_response :: http_response where
  "ok_response =
     \<lparr>resp_status = 200,
      resp_data = JObj [(''success'', JBool True), (''data'', JArr [])]\<rparr>"

definition ok_transport :: transport where
  "ok_transport req = Inr ok_response"

text \<open>
  Failure values: a response with the given body and status and the header
  \<open>x-request-id: r-1\<close>, under the usual exception message.
\<close>

definition failure_with_body :: "string \<Rightarrow> jsval \<Rightarrow> jsval" where
  "failure_with_body status body =
     JObj [(''message'', JStr (''Request failed with status code '' @ status)),
           (''response'', JObj [(''status'', JNum status),
                                (''headers'', JObj [(''x-request-id'', JStr ''r-1'')]),
                                (''data'', body)])]"

text \<open>A transport that fails every request with the same failure value.\<close>

definition failing_transport :: "jsval \<Rightarrow> transport" where
  "failing_transport error req = Inl error"





section \<open>Emissions\<close>

lemma run_listeners_quiet: "list_all (quiet p) ls \<Longrightarrow> run_listeners p ls = (ls, None)"
  by (induction ls) (simp_all add: quiet_def)


lemma emit_eq:
  "emit ev p c =
     ((if ev = ERROR \<and> listeners c ev = [] then Inl (unhandled p)
       else (case snd (run_listeners p (listeners c ev)) of
               Some t \<Rightarrow> Inl t
             | None \<Rightarrow> Inr (listeners c ev \<noteq> []))),
      c\<lparr>emitted := emitted c @ [(ev, p, fst (run_listeners p (listeners c ev)))]\<rparr>)"
  by (cases "run_listeners p (listeners c ev)")
     (auto simp add: emit_def Let_def split: option.splits)

lemma example_client_constructed: "new_NeuralNexus example_config = Inr example_client"
  by (simp add: new_NeuralNexus_def example_config_def example_client_def str_truthy_def
      str_or_def num_or_def str_val_def num_val_def template_str_def getDefaultApiUrl_def
      axios_create_def validateApiKey_def keyPrefixes_def emit_eq Let_def)

section \<open>Construction: configuration errors and the connected event\<close>

text \<open>
  C8. A configuration whose credential or whose environment is missing (undefined, or
  the empty string: the test is \<open>!\<close>) makes the constructor throw a
  \<open>NeuralNexusError\<close> with the code \<open>INVALID_CONFIG\<close>; the constructor takes no
  transport, so nothing was requested. With both present it returns a client.
\<close>

theorem construct_validates_config:
  "(\<not> str_truthy (apiKey cfg) \<or> \<not> str_truthy (environment cfg) \<longrightarrow>
      (\<exists>e. new_NeuralNexus cfg = Inl (ThrownNN e) \<and> nn_name e = ''NeuralNexusError''
           \<and> nn_code e = JStr ''INVALID_CONFIG''))
   \<and> (str_truthy (apiKey cfg) \<and> str_truthy (environment cfg) \<longrightarrow>
      (\<exists>c. new_NeuralNexus cfg = Inr c))"
  by (simp add: new_NeuralNexus_def new_NeuralNexusError_def emit_eq Let_def)

theorem construct_validates_config_witness:
  "(\<exists>e. new_NeuralNexus (example_config\<lparr>apiKey := None\<rparr>) = Inl (ThrownNN e)
        \<and> nn_name e = ''NeuralNexusError'' \<and> nn_code e = JStr ''INVALID_CONFIG'')
   \<and> (\<exists>e. new_NeuralNexus (example_config\<lparr>environment := None\<rparr>) = Inl (ThrownNN e)
        \<and> nn_name e = ''NeuralNexusError'' \<and> nn_code e = JStr ''INVALID_CONFIG'')
   \<and> (\<exists>c. new_NeuralNexus example_config = Inr c)"
  using construct_validates_config [of "example_config\<lparr>apiKey := None\<rparr>"]
        construct_validates_config [of "example_config\<lparr>environment := None\<rparr>"]
        construct_validates_config [of example_config]
  by (simp add: example_config_def str_truthy_def)

text \<open>
  C10. The constructor emits \<open>connected\<close> itself, as its last step: the log of the
  instance it returns holds exactly that one emission, and it invoked no listener,
  since the registry of the new instance is empty.
\<close>

theorem connected_reaches_no_listener:
  assumes "new_NeuralNexus cfg = Inr c"
  shows "emitted c = [(CONNECTED, NoPayload, [])] \<and> (\<forall>ev. listeners c ev = [])"
  using assms
  by (auto simp add: new_NeuralNexus_def emit_eq Let_def split: if_splits)

theorem connected_reaches_no_listener_witness:
  "new_NeuralNexus example_config = Inr example_client
   \<and> emitted example_client = [(CONNECTED, NoPayload, [])]
   \<and> (\<forall>ev. listeners example_client ev = [])"
  using connected_reaches_no_listener [OF example_client_constructed]
        example_client_constructed
  by simp

section \<open>Closing the client\<close>








section \<open>The error normalizer\<close>

lemma first_truthy_truthy: "js_truthy fallback \<Longrightarrow> js_truthy (first_truthy cands fallback)"
  by (induction cands) simp_all

lemma normalize_error_eq:
  assumes "error \<noteq> JUndefined" and "error \<noteq> JNull"
  shows "normalize_error error =
           new_NeuralNexusError_any (message_candidate error) (code_candidate error)
             (details_candidate error)"
  using assms
  by (simp add: normalize_error_def Let_def js_or_def message_candidate_def
      code_candidate_def details_candidate_def nested_error_def error_body_def
      synthesized_details_def)

lemma candidates_truthy:
  "js_truthy (message_candidate error)" "js_truthy (code_candidate error)"
  by (simp_all add: message_candidate_def code_candidate_def first_truthy_truthy)

lemma interceptor_eq:
  "interceptor error c =
     (case normalize_error error of
        Inl t \<Rightarrow> (t, c)
      | Inr e \<Rightarrow>
          ((case snd (run_listeners (ErrorPayload e) (listeners c ERROR)) of
              None \<Rightarrow> ThrownNN e
            | Some t \<Rightarrow> t),
           c\<lparr>emitted := emitted c @
                [(ERROR, ErrorPayload e, fst (run_listeners (ErrorPayload e) (listeners c ERROR)))]\<rparr>))"
  by (cases "listeners c ERROR")
     (auto simp add: interceptor_def emit_eq split: sum.splits option.splits)

text \<open>
  C1, amended to what the code does. For every failure value other than \<open>null\<close> and
  \<open>undefined\<close>, the normalizer picks as message the first truthy one of the nested
  \<open>error.message\<close>, the flat \<open>message\<close> and the exception's message, else
  \<open>Unknown error occurred\<close>; as code the first truthy one of the nested and the flat
  \<open>code\<close>, else \<open>API_ERROR\<close>; as details the first truthy one of the nested and
  the flat \<open>details\<close>, else the object made of the HTTP status and the
  \<open>x-request-id\<close> response header. Message and code picked are truthy. The error
  is built from them with the message converted to a string, unless that conversion
  throws. When the message picked is a string, as the declared types have it,
  normalization succeeds and the message is that string, not empty; a code that is a
  string is not empty. And when no listener registered for \<open>error\<close> throws, the
  interceptor's handler ends by rejecting with the normalized error. On \<open>null\<close> and
  \<open>undefined\<close> the normalizer throws a \<open>TypeError\<close>.
\<close>

theorem normalizer_on_untyped_failure:
  "(error \<noteq> JUndefined \<and> error \<noteq> JNull \<longrightarrow>
      normalize_error error =
        (case js_to_string (message_candidate error) of
           None \<Rightarrow> Inl type_error
         | Some text \<Rightarrow>
             Inr \<lparr>nn_name = ''NeuralNexusError'', nn_message = text,
                  nn_code = code_candidate error, nn_details = details_candidate error\<rparr>)
      \<and> js_truthy (message_candidate error) \<and> js_truthy (code_candidate error))
   \<and> (error \<noteq> JUndefined \<and> error \<noteq> JNull \<and> message_candidate error = JStr text \<longrightarrow>
      normalize_error error =
        Inr \<lparr>nn_name = ''NeuralNexusError'', nn_message = text,
             nn_code = code_candidate error, nn_details = details_candidate error\<rparr>
      \<and> text \<noteq> [])
   \<and> (code_candidate error = JStr code \<longrightarrow> code \<noteq> [])
   \<and> (normalize_error error = Inr e \<and> list_all (quiet (ErrorPayload e)) (listeners c ERROR) \<longrightarrow>
      fst (interceptor error c) = ThrownNN e)
   \<and> normalize_error JUndefined = Inl type_error \<and> normalize_error JNull = Inl type_error"
proof (intro conjI impI)
  assume ok: "error \<noteq> JUndefined \<and> error \<noteq> JNull"
  have "message_candidate error \<noteq> JUndefined"
    using candidates_truthy(1) [of error] by auto
  with ok show "normalize_error error =
      (case js_to_string (message_candidate error) of
         None \<Rightarrow> Inl type_error
       | Some text \<Rightarrow>
           Inr \<lparr>nn_name = ''NeuralNexusError'', nn_message = text,
                nn_code = code_candidate error, nn_details = details_candidate error\<rparr>)"
    by (simp add: normalize_error_eq new_NeuralNexusError_any_def)
  show "js_truthy (message_candidate error)" by (rule candidates_truthy)
  show "js_truthy (code_candidate error)" by (rule candidates_truthy)
next
  assume s: "error \<noteq> JUndefined \<and> error \<noteq> JNull \<and> message_candidate error = JStr text"
  then show "normalize_error error =
      Inr \<lparr>nn_name = ''NeuralNexusError'', nn_message = text,
           nn_code = code_candidate error, nn_details = details_candidate error\<rparr>"
    by (simp add: normalize_error_eq new_NeuralNexusError_any_def)
  from s candidates_truthy(1) [of error] show "text \<noteq> []" by simp
next
  assume "code_candidate error = JStr code"
  with candidates_truthy(2) [of error] show "code \<noteq> []" by simp
next
  assume "normalize_error error = Inr e \<and> list_all (quiet (ErrorPayload e)) (listeners c ERROR)"
  then show "fst (interceptor error c) = ThrownNN e"
    by (simp add: interceptor_eq run_listeners_quiet)
next
  show "normalize_error JUndefined = Inl type_error" by (simp add: normalize_error_def)
  show "normalize_error JNull = Inl type_error" by (simp add: normalize_error_def)
qed

text \<open>
  The four shapes of a failure, evaluated: a nested error object, flat error fields, an
  exception message only, and nothing at all.
\<close>

lemma normalize_examples:
  "normalize_error (failure_with_body ''404''
       (JObj [(''error'', JObj [(''message'', JStr ''No such model''),
                                (''code'', JStr ''NOT_FOUND'')])]))
     = Inr (new_NeuralNexusError ''No such model'' ''NOT_FOUND''
         (JObj [(''status'', JNum ''404''), (''request_id'', JStr ''r-1'')]))"
  "normalize_error (failure_with_body ''400''
       (JObj [(''message'', JStr ''Bad input''), (''code'', JStr ''BAD_INPUT''),
              (''details'', JStr ''field x'')]))
     = Inr (new_NeuralNexusError ''Bad input'' ''BAD_INPUT'' (JStr ''field x''))"
  "normalize_error (JObj [(''message'', JStr ''Network Error'')])
     = Inr (new_NeuralNexusError ''Network Error'' ''API_ERROR''
         (JObj [(''status'', JUndefined), (''request_id'', JUndefined)]))"
  "normalize_error (JObj [(''response'', JObj [(''status'', JNum ''500''), (''data'', JStr [])])])
     = Inr (new_NeuralNexusError ''Unknown error occurred'' ''API_ERROR''
         (JObj [(''status'', JNum ''500''), (''request_id'', JUndefined)]))"
  by (simp_all add: normalize_error_def failure_with_body_def js_or_def Let_def
      new_NeuralNexusError_any_def new_NeuralNexusError_def)

lemma nested_example_candidates:
  "failure_with_body ''404''
       (JObj [(''error'', JObj [(''message'', JStr ''No such model''),
                                (''code'', JStr ''NOT_FOUND'')])]) \<noteq> JUndefined"
  "failure_with_body ''404''
       (JObj [(''error'', JObj [(''message'', JStr ''No such model''),
                                (''code'', JStr ''NOT_FOUND'')])]) \<noteq> JNull"
  "message_candidate (failure_with_body ''404''
       (JObj [(''error'', JObj [(''message'', JStr ''No such model''),
                                (''code'', JStr ''NOT_FOUND'')])])) = JStr ''No such model''"
  "code_candidate (failure_with_body ''404''
       (JObj [(''error'', JObj [(''message'', JStr ''No such model''),
                                (''code'', JStr ''NOT_FOUND'')])])) = JStr ''NOT_FOUND''"
  "details_candidate (failure_with_body ''404''
       (JObj [(''error'', JObj [(''message'', JStr ''No such model''),
                                (''code'', JStr ''NOT_FOUND'')])]))
     = JObj [(''status'', JNum ''404''), (''request_id'', JStr ''r-1'')]"
  by (simp_all add: failure_with_body_def message_candidate_def code_candidate_def
      details_candidate_def nested_error_def error_body_def synthesized_details_def)

theorem normalizer_on_untyped_failure_witness:
  "normalize_error (failure_with_body ''404''
       (JObj [(''error'', JObj [(''message'', JStr ''No such model''),
                                (''code'', JStr ''NOT_FOUND'')])]))
     = Inr \<lparr>nn_name = ''NeuralNexusError'', nn_message = ''No such model'',
            nn_code = JStr ''NOT_FOUND'',
            nn_details = JObj [(''status'', JNum ''404''), (''request_id'', JStr ''r-1'')]\<rparr>
   \<and> ''No such model'' \<noteq> [] \<and> ''NOT_FOUND'' \<noteq> []
   \<and> fst (interceptor (failure_with_body ''404''
       (JObj [(''error'', JObj [(''message'', JStr ''No such model''),
                                (''code'', JStr ''NOT_FOUND'')])])) example_client)
     = ThrownNN \<lparr>nn_name = ''NeuralNexusError'', nn_message = ''No such model'',
            nn_code = JStr ''NOT_FOUND'',
            nn_details = JObj [(''status'', JNum ''404''), (''request_id'', JStr ''r-1'')]\<rparr>"
proof -
  let ?f = "failure_with_body ''404''
       (JObj [(''error'', JObj [(''message'', JStr ''No such model''),
                                (''code'', JStr ''NOT_FOUND'')])])"
  let ?e = "\<lparr>nn_name = ''NeuralNexusError'', nn_message = ''No such model'',
            nn_code = JStr ''NOT_FOUND'',
            nn_details = JObj [(''status'', JNum ''404''), (''request_id'', JStr ''r-1'')]\<rparr>"
  have quiet: "list_all (quiet (ErrorPayload ?e)) (listeners example_client ERROR)"
    by (simp add: example_client_def)
  show ?thesis
    using normalizer_on_untyped_failure [of ?f "''No such model''" "''NOT_FOUND''" ?e example_client]
      nested_example_candidates quiet
    by simp
qed

text \<open>
  C1 as stated fails on a body that is not typed as declared. A nested error whose
  message and code are empty arrays: both are truthy, so they are picked, and the
  message of the normalized error is the empty string. A flat message that is an object
  with a \<open>toString\<close> property: building the error throws a \<open>TypeError\<close>.
\<close>

theorem normalizer_empty_message_or_throw:
  "normalize_error (failure_with_body ''500''
       (JObj [(''error'', JObj [(''message'', JArr []), (''code'', JArr [])])]))
     = Inr \<lparr>nn_name = ''NeuralNexusError'', nn_message = [], nn_code = JArr [],
            nn_details = JObj [(''status'', JNum ''500''), (''request_id'', JStr ''r-1'')]\<rparr>
   \<and> normalize_error (failure_with_body ''500''
       (JObj [(''message'', JObj [(''toString'', JNull)])]))
     = Inl type_error"
  by (simp add: normalize_error_def failure_with_body_def js_or_def Let_def
      new_NeuralNexusError_any_def)

section \<open>Requests: failures, emissions and the closed client\<close>

lemma axios_request_failed:
  "axios_request tr req c =
     (case tr req of
        Inr response \<Rightarrow> (Inr response, c)
      | Inl error \<Rightarrow> (Inl (fst (interceptor error c)), snd (interceptor error c)))"
  by (simp add: axios_request_def split: sum.splits prod.splits)

lemma wrap_interceptor:
  "wrap_failure msg (fst (interceptor error c)) = fst (failed_exchange msg error c)"
  "snd (interceptor error c) = snd (failed_exchange msg error c)"
  by (simp_all add: interceptor_eq failed_exchange_def wrap_failure_def
      split: sum.splits option.splits)

lemma get_eq:
  "get tr endpoint params c =
     (case tr (make_request c GET endpoint params JUndefined [] None) of
        Inr response \<Rightarrow> (Inr (resp_data response), c)
      | Inl error \<Rightarrow>
          (Inl (fst (failed_exchange (''Failed to fetch data from '' @ endpoint) error c)),
           snd (failed_exchange (''Failed to fetch data from '' @ endpoint) error c)))"
  by (simp add: get_def axios_request_failed wrap_interceptor split: sum.splits)

lemma post_eq:
  "post tr endpoint body c =
     (case tr (make_request c POST endpoint JUndefined body [] None) of
        Inr response \<Rightarrow> (Inr (resp_data response), c)
      | Inl error \<Rightarrow>
          (Inl (fst (failed_exchange (''Failed to post data to '' @ endpoint) error c)),
           snd (failed_exchange (''Failed to post data to '' @ endpoint) error c)))"
  by (simp add: post_def axios_request_failed wrap_interceptor split: sum.splits)

lemma put_eq:
  "put tr endpoint body c =
     (case tr (make_request c PUT endpoint JUndefined body [] None) of
        Inr response \<Rightarrow> (Inr (resp_data response), c)
      | Inl error \<Rightarrow>
          (Inl (fst (failed_exchange (''Failed to update data at '' @ endpoint) error c)),
           snd (failed_exchange (''Failed to update data at '' @ endpoint) error c)))"
  by (simp add: put_def axios_request_failed wrap_interceptor split: sum.splits)

lemma delete_eq:
  "delete tr endpoint params c =
     (case tr (make_request c DELETE endpoint params JUndefined [] None) of
        Inr response \<Rightarrow> (Inr (resp_data response), c)
      | Inl error \<Rightarrow>
          (Inl (fst (failed_exchange (''Failed to delete data at '' @ endpoint) error c)),
           snd (failed_exchange (''Failed to delete data at '' @ endpoint) error c)))"
  by (simp add: delete_def axios_request_failed wrap_interceptor split: sum.splits)

lemma upload_eq:
  "upload tr endpoint formData has_cb progress c =
     (case tr (make_request c POST endpoint JUndefined formData
                 [(''Content-Type'', ''multipart/form-data'')] None) of
        Inr response \<Rightarrow> (Inr (resp_data response), report_progress has_cb progress, c)
      | Inl error \<Rightarrow>
          (Inl (fst (failed_exchange (''Failed to upload data to '' @ endpoint) error c)),
           report_progress has_cb progress,
           snd (failed_exchange (''Failed to upload data to '' @ endpoint) error c)))"
  by (simp add: upload_def axios_request_failed wrap_interceptor split: sum.splits)

lemma stream_eq:
  "stream tr endpoint body parse evs c =
     (case tr (make_request c POST endpoint JUndefined body [] (Some ''stream'')) of
        Inr response \<Rightarrow>
          (promise (run_stream parse evs \<lparr>promise = Pending, calls = []\<rparr>),
           calls (run_stream parse evs \<lparr>promise = Pending, calls = []\<rparr>), c)
      | Inl error \<Rightarrow>
          (Rejected (fst (failed_exchange (''Failed to stream data from '' @ endpoint) error c)),
           [], snd (failed_exchange (''Failed to stream data from '' @ endpoint) error c)))"
  by (simp add: stream_def axios_request_failed wrap_interceptor Let_def split: sum.splits)

text \<open>
  C6, amended to what the code does. Every request method treats a failed exchange as
  \<open>failed_exchange\<close> describes: if the normalized error can be built, there is
  exactly one \<open>error\<close> emission, which carries it, and the caller is raised that same
  error unless a listener for \<open>error\<close> throws (then what the listener threw); if
  building it throws, nothing is emitted and an \<open>API_REQUEST_FAILED\<close> error is
  raised. A method whose exchange succeeds makes no emission, whatever happens
  afterwards on the response stream; so the \<open>STREAM_ERROR\<close> of a failing response
  stream is raised without one.
\<close>

theorem failed_exchange_emits_error_once:
  "get tr endpoint params c =
     (case tr (make_request c GET endpoint params JUndefined [] None) of
        Inr response \<Rightarrow> (Inr (resp_data response), c)
      | Inl error \<Rightarrow>
          (Inl (fst (failed_exchange (''Failed to fetch data from '' @ endpoint) error c)),
           snd (failed_exchange (''Failed to fetch data from '' @ endpoint) error c)))
   \<and> post tr endpoint body c =
     (case tr (make_request c POST endpoint JUndefined body [] None) of
        Inr response \<Rightarrow> (Inr (resp_data response), c)
      | Inl error \<Rightarrow>
          (Inl (fst (failed_exchange (''Failed to post data to '' @ endpoint) error c)),
           snd (failed_exchange (''Failed to post data to '' @ endpoint) error c)))
   \<and> put tr endpoint body c =
     (case tr (make_request c PUT endpoint JUndefined body [] None) of
        Inr response \<Rightarrow> (Inr (resp_data response), c)
      | Inl error \<Rightarrow>
          (Inl (fst (failed_exchange (''Failed to update data at '' @ endpoint) error c)),
           snd (failed_exchange (''Failed to update data at '' @ endpoint) error c)))
   \<and> delete tr endpoint params c =
     (case tr (make_request c DELETE endpoint params JUndefined [] None) of
        Inr response \<Rightarrow> (Inr (resp_data response), c)
      | Inl error \<Rightarrow>
          (Inl (fst (failed_exchange (''Failed to delete data at '' @ endpoint) error c)),
           snd (failed_exchange (''Failed to delete data at '' @ endpoint) error c)))
   \<and> upload tr endpoint body has_cb progress c =
     (case tr (make_request c POST endpoint JUndefined body
                 [(''Content-Type'', ''multipart/form-data'')] None) of
        Inr response \<Rightarrow> (Inr (resp_data response), report_progress has_cb progress, c)
      | Inl error \<Rightarrow>
          (Inl (fst (failed_exchange (''Failed to upload data to '' @ endpoint) error c)),
           report_progress has_cb progress,
           snd (failed_exchange (''Failed to upload data to '' @ endpoint) error c)))
   \<and> stream tr endpoint body parse evs c =
     (case tr (make_request c POST endpoint JUndefined body [] (Some ''stream'')) of
        Inr response \<Rightarrow>
          (promise (run_stream parse evs \<lparr>promise = Pending, calls = []\<rparr>),
           calls (run_stream parse evs \<lparr>promise = Pending, calls = []\<rparr>), c)
      | Inl error \<Rightarrow>
          (Rejected (fst (failed_exchange (''Failed to stream data from '' @ endpoint) error c)),
           [], snd (failed_exchange (''Failed to stream data from '' @ endpoint) error c)))
   \<and> failed_exchange msg error c =
     (case normalize_error error of
        Inl t \<Rightarrow> (wrap_failure msg t, c)
      | Inr e \<Rightarrow>
          ((case snd (run_listeners (ErrorPayload e) (listeners c ERROR)) of
              None \<Rightarrow> e
            | Some t \<Rightarrow> wrap_failure msg t),
           c\<lparr>emitted := emitted c @
                [(ERROR, ErrorPayload e,
                  fst (run_listeners (ErrorPayload e) (listeners c ERROR)))]\<rparr>))
   \<and> wrap_failure msg type_error =
       new_NeuralNexusError msg ''API_REQUEST_FAILED'' (JObj [(''name'', JStr ''TypeError'')])
   \<and> promise (run_stream parse [StreamError err] \<lparr>promise = Pending, calls = []\<rparr>) =
       Rejected (new_NeuralNexusError ''Stream error'' ''STREAM_ERROR'' err)"
  by (simp add: get_eq post_eq put_eq delete_eq upload_eq stream_eq failed_exchange_def
      wrap_failure_def type_error_def run_stream_def reject_def)

text \<open>
  C6 as stated fails: the response stream of a successful exchange reports an error, the
  promise of \<open>stream\<close> is rejected with a \<open>STREAM_ERROR\<close>, and the log of the client
  is what it was before the call, the constructor's \<open>connected\<close> emission alone. And
  a failed exchange whose body holds a message that cannot be converted to a string
  raises \<open>API_REQUEST_FAILED\<close>, again without an emission.
\<close>

theorem errors_raised_without_emission:
  "stream ok_transport ''/generate'' JNull json_nat [StreamError (JStr ''socket hang up'')]
       example_client
     = (Rejected (new_NeuralNexusError ''Stream error'' ''STREAM_ERROR'' (JStr ''socket hang up'')),
        [], example_client)
   \<and> get (failing_transport (failure_with_body ''500''
            (JObj [(''message'', JObj [(''toString'', JNull)])]))) ''/models'' JUndefined
          example_client
     = (Inl (new_NeuralNexusError ''Failed to fetch data from /models'' ''API_REQUEST_FAILED''
               (JObj [(''name'', JStr ''TypeError'')])),
        example_client)
   \<and> emitted example_client = [(CONNECTED, NoPayload, [])]"
proof -
  have "normalize_error (failure_with_body ''500''
      (JObj [(''message'', JObj [(''toString'', JNull)])])) = Inl type_error"
    by (simp add: normalize_error_def failure_with_body_def js_or_def Let_def
        new_NeuralNexusError_any_def)
  then show ?thesis
    by (simp add: stream_eq get_eq ok_transport_def failing_transport_def run_stream_def
        reject_def failed_exchange_def wrap_failure_def type_error_def example_client_def)
qed



lemma make_request_cong:
  "axiosInstance c = axiosInstance c' \<Longrightarrow>
     make_request c m endpoint params body call rt = make_request c' m endpoint params body call rt"
  by (simp add: make_request_def)





section \<open>The session token and the Authorization header\<close>

lemma assign_header_lookup: "map_of (assign_header k v hs) k = Some v"
  by (simp add: assign_header_def)

text \<open>
  What the repository's tests check: the entry of \<open>defaults.headers.common\<close> after
  \<open>setToken\<close> and after \<open>clearToken\<close>.
\<close>

lemma setToken_common:
  "map_of (headers_common (axiosInstance (setToken t c))) ''Authorization'' = Some (''Bearer '' @ t)"
  by (simp add: setToken_def assign_header_lookup)

lemma clearToken_common:
  "map_of (headers_common (axiosInstance (clearToken (setToken t c)))) ''Authorization'' =
     Some (''Bearer '' @ template_str (apiKey (config c)))"
  by (simp add: clearToken_def setToken_def assign_header_lookup)

text \<open>
  What a request carries: the instance's own \<open>Authorization\<close> header, the one the
  constructor gave to \<open>axios.create\<close>, replaces the entry of \<open>common\<close>. Neither
  \<open>setToken\<close> nor \<open>clearToken\<close> touches it.
\<close>

lemma request_authorization_fixed:
  assumes "new_NeuralNexus cfg = Inr c"
  shows "req_headers (make_request c m endpoint params body [] rt) ''Authorization'' =
           Some (''Bearer '' @ str_val (apiKey cfg))"
    and "req_headers (make_request (setToken t c) m endpoint params body [] rt) ''Authorization'' =
           Some (''Bearer '' @ str_val (apiKey cfg))"
    and "req_headers (make_request (clearToken (setToken t c)) m endpoint params body [] rt)
           ''Authorization'' = Some (''Bearer '' @ str_val (apiKey cfg))"
  using assms
  by (auto simp add: new_NeuralNexus_def make_request_def flatten_headers_def setToken_def
      clearToken_def axios_create_def emit_eq Let_def str_val_def template_str_def
      str_truthy_def map_add_def split: if_splits option.splits)

text \<open>
  C4 says that after \<open>setToken t\<close> every request carries \<open>Bearer t\<close>, and after
  \<open>clearToken\<close> the configured key again. The code misses the first half. At a
  concrete input: the client is configured with the key \<open>nxt_k\<close>; after
  \<open>setToken ''session''\<close> the entry of \<open>common\<close> is \<open>Bearer session\<close>, but a
  GET still carries \<open>Bearer nxt_k\<close>.
\<close>

theorem setToken_request_keeps_api_key:
  "map_of (headers_common (axiosInstance (setToken ''session'' example_client))) ''Authorization''
     = Some ''Bearer session''
   \<and> req_headers (make_request (setToken ''session'' example_client) GET ''/models''
        JUndefined JUndefined [] None) ''Authorization''
     = Some ''Bearer nxt_k''"
  by (simp add: setToken_def assign_header_def make_request_def flatten_headers_def
      example_client_def map_add_def)

section \<open>The streaming decoder\<close>

lemma sentinel_line:
  "(take 6 line = ''data: '' \<and> drop 6 line = ''[DONE]'') \<longleftrightarrow> line = ''data: [DONE]''"
proof
  assume "take 6 line = ''data: '' \<and> drop 6 line = ''[DONE]''"
  then have "take 6 line @ drop 6 line = ''data: '' @ ''[DONE]''" by simp
  then show "line = ''data: [DONE]''" by simp
next
  assume "line = ''data: [DONE]''"
  then show "take 6 line = ''data: '' \<and> drop 6 line = ''[DONE]''" by simp
qed

lemma blank_no_prefix: "blank line \<Longrightarrow> take 6 line \<noteq> ''data: ''"
proof
  assume b: "blank line" and p: "take 6 line = ''data: ''"
  from p have "line \<noteq> []" by auto
  then obtain c cs where l: "line = c # cs" by (cases line) auto
  with p have "c = CHR ''d''" by simp
  moreover from b l have "is_space c" by (simp add: blank_def)
  ultimately show False by (simp add: is_space_def)
qed

lemma blank_lines_irrelevant:
  "process_lines parse (filter (\<lambda>line. \<not> blank line) ls) st = process_lines parse ls st"
proof (induction ls arbitrary: st)
  case Nil
  then show ?case by simp
next
  case (Cons line rest)
  then show ?case
    by (cases "blank line") (simp_all add: blank_no_prefix split: option.splits)
qed

lemma resolve_calls: "calls (resolve st) = calls st"
  by (simp add: resolve_def)

lemma resolve_promise:
  "promise (resolve st) = (if promise st = Pending then Resolved else promise st)"
  by (simp add: resolve_def)

lemma process_lines_calls:
  "calls (process_lines parse ls st) = calls st @ frames_of_lines parse ls"
proof (induction ls arbitrary: st)
  case Nil
  then show ?case by (simp add: frames_of_lines_def)
next
  case (Cons line rest)
  show ?case
  proof (cases "line = ''data: [DONE]''")
    case True
    then show ?thesis
      by (simp add: frames_of_lines_def resolve_calls)
  next
    case False
    then have ns: "\<not> (take 6 line = ''data: '' \<and> drop 6 line = ''[DONE]'')"
      by (simp only: sentinel_line) simp
    have tw: "frames_of_lines parse (line # rest) =
        (case frame_of parse line of None \<Rightarrow> frames_of_lines parse rest
         | Some v \<Rightarrow> v # frames_of_lines parse rest)"
      using False
      by (simp add: frames_of_lines_def split: option.splits)
    show ?thesis
    proof (cases "take 6 line = ''data: ''")
      case True
      with ns have nd: "drop 6 line \<noteq> ''[DONE]''" by simp
      show ?thesis
        using True nd Cons.IH tw
        by (cases "parse (drop 6 line)") (simp_all add: frame_of_def)
    next
      case False
      then show ?thesis
        using Cons.IH tw by (simp add: frame_of_def)
    qed
  qed
qed

lemma process_lines_promise:
  "promise (process_lines parse ls st) =
     (if ''data: [DONE]'' \<in> set ls \<and> promise st = Pending then Resolved else promise st)"
proof (induction ls arbitrary: st)
  case Nil
  then show ?case by simp
next
  case (Cons line rest)
  show ?case
  proof (cases "line = ''data: [DONE]''")
    case True
    then show ?thesis by (simp add: resolve_promise)
  next
    case False
    then have ns: "\<not> (take 6 line = ''data: '' \<and> drop 6 line = ''[DONE]'')"
      by (simp only: sentinel_line) simp
    show ?thesis
    proof (cases "take 6 line = ''data: ''")
      case True
      with ns have nd: "drop 6 line \<noteq> ''[DONE]''" by simp
      show ?thesis
        using True nd False Cons.IH
        by (cases "parse (drop 6 line)") auto
    next
      case nt: False
      then show ?thesis
        using False Cons.IH by auto
    qed
  qed
qed

lemma stream_state_eqI:
  "promise s = promise s' \<Longrightarrow> calls s = calls s' \<Longrightarrow> (s :: 'a stream_state) = s'"
  by simp

lemma on_data_calls: "calls (on_data parse chunk st) = calls st @ chunk_frames parse chunk"
  by (simp add: on_data_def chunk_frames_def process_lines_calls)

lemma on_data_promise:
  "promise (on_data parse chunk st) =
     (if ''data: [DONE]'' \<in> set (chunk_lines chunk) \<and> promise st = Pending then Resolved
      else promise st)"
  by (simp add: on_data_def process_lines_promise)

lemma on_event_calls: "calls (on_event parse ev st) = calls st @ event_frames parse ev"
  by (cases ev) (simp_all add: on_data_calls resolve_calls reject_def)

lemma run_stream_calls:
  "calls (run_stream parse evs st) = calls st @ concat (map (event_frames parse) evs)"
proof (induction evs arbitrary: st)
  case Nil
  then show ?case by (simp add: run_stream_def)
next
  case (Cons ev evs)
  have "run_stream parse (ev # evs) st = run_stream parse evs (on_event parse ev st)"
    by (simp add: run_stream_def)
  then show ?case
    using Cons.IH [of "on_event parse ev st"] by (simp add: on_event_calls)
qed

lemma run_stream_append:
  "run_stream parse (evs @ evs') st = run_stream parse evs' (run_stream parse evs st)"
  by (simp add: run_stream_def)

lemma run_stream_Cons:
  "run_stream parse (ev # evs) st = run_stream parse evs (on_event parse ev st)"
  by (simp add: run_stream_def)

text \<open>
  C2, amended to what the code does. A chunk is decoded the same way whatever the state of the
  promise: the consumer is invoked for the valid frames before the chunk's first
  sentinel line, the lines after that line are skipped, and a pending promise is
  resolved by it. The handler stays attached and keeps no memory of a sentinel, so a
  chunk that arrives after one is decoded like any other.
\<close>

theorem sentinel_ends_chunk_only:
  "calls (on_data parse chunk st) = calls st @ chunk_frames parse chunk
   \<and> promise (on_data parse chunk st) =
       (if ''data: [DONE]'' \<in> set (chunk_lines chunk) \<and> promise st = Pending then Resolved
        else promise st)
   \<and> calls (run_stream parse evs st) = calls st @ concat (map (event_frames parse) evs)"
  by (simp add: on_data_calls on_data_promise run_stream_calls)

text \<open>
  C2 as stated fails: the first chunk is the sentinel and resolves the promise without
  an invocation of the consumer; the chunk delivered after it holds the frame \<open>7\<close>,
  and the consumer is invoked with it.
\<close>

theorem chunk_after_sentinel_is_decoded:
  "promise (run_stream json_nat [Data (''data: [DONE]'' @ [CHR 0x0A])]
              \<lparr>promise = Pending, calls = []\<rparr>) = Resolved
   \<and> calls (run_stream json_nat [Data (''data: [DONE]'' @ [CHR 0x0A])]
              \<lparr>promise = Pending, calls = []\<rparr>) = []
   \<and> calls (run_stream json_nat
              [Data (''data: [DONE]'' @ [CHR 0x0A]), Data (''data: 7'' @ [CHR 0x0A])]
              \<lparr>promise = Pending, calls = []\<rparr>) = [7]"
  by (simp add: run_stream_def on_data_def chunk_lines_def blank_def is_space_def resolve_def
      json_nat_def is_digit_def)

lemma frames_of_lines_skip:
  assumes "bad \<noteq> ''data: [DONE]''" and "frame_of parse bad = None"
  shows "frames_of_lines parse (xs @ bad # ys) = frames_of_lines parse (xs @ ys)"
proof (induction xs)
  case Nil
  then show ?case using assms by (simp add: frames_of_lines_def)
next
  case (Cons x xs)
  then show ?case
    by (cases "x = ''data: [DONE]''") (simp_all add: frames_of_lines_def split: option.splits)
qed

lemma on_data_skip:
  assumes "chunk_lines chunk = xs @ (''data: '' @ txt) # ys"
    and "txt \<noteq> ''[DONE]''" and "parse txt = None"
    and "chunk_lines chunk' = xs @ ys"
  shows "on_data parse chunk st = on_data parse chunk' st"
proof (rule stream_state_eqI)
  have bad: "''data: '' @ txt \<noteq> ''data: [DONE]''"
    using assms(2) by simp
  have none: "frame_of parse (''data: '' @ txt) = None"
    using assms(3) by (simp add: frame_of_def)
  show "calls (on_data parse chunk st) = calls (on_data parse chunk' st)"
    using frames_of_lines_skip [OF bad none, of xs ys] assms(1,4)
    by (simp add: on_data_calls chunk_frames_def)
  have "''data: [DONE]'' \<in> set (chunk_lines chunk) \<longleftrightarrow> ''data: [DONE]'' \<in> set (chunk_lines chunk')"
    using assms(1,2,4) by auto
  then show "promise (on_data parse chunk st) = promise (on_data parse chunk' st)"
    by (simp add: on_data_promise)
qed

text \<open>
  C7. Let a chunk hold, among its lines, a \<open>data: \<close> line whose rest is not the
  sentinel and does not decode. Then the whole run of the decoder, the state of the
  promise and the invocations of the consumer, is what it is on the same events with
  that line left out of the chunk: the line rejects nothing, aborts nothing and costs
  no other frame, in its own chunk or in a later one. And the consumer is invoked with
  the frames of the chunks (\<open>chunk_frames\<close>: the decodable \<open>data: \<close> lines
  before a sentinel line of the chunk) in the order the chunks arrive, each chunk's
  frames in the order of its lines.
\<close>

theorem malformed_frame_is_skipped:
  assumes "chunk_lines chunk = xs @ (''data: '' @ txt) # ys"
    and "txt \<noteq> ''[DONE]''" and "parse txt = None"
    and "chunk_lines chunk' = xs @ ys"
  shows "run_stream parse (evs @ Data chunk # evs') st =
           run_stream parse (evs @ Data chunk' # evs') st
         \<and> calls (run_stream parse (evs @ Data chunk # evs') st) =
           calls st @ concat (map (event_frames parse) (evs @ Data chunk # evs'))"
proof -
  have "on_data parse chunk (run_stream parse evs st) =
      on_data parse chunk' (run_stream parse evs st)"
    using assms by (rule on_data_skip)
  then have "run_stream parse (evs @ Data chunk # evs') st =
      run_stream parse (evs @ Data chunk' # evs') st"
    by (simp add: run_stream_append run_stream_Cons)
  then show ?thesis
    using run_stream_calls [of parse "evs @ Data chunk # evs'" st] by simp
qed

lemma malformed_example_lines:
  "chunk_lines (''data: {not json'' @ [CHR 0x0A] @ ''data: 3'' @ [CHR 0x0A]) =
     [] @ (''data: '' @ ''{not json'') # [''data: 3'']"
  "chunk_lines (''data: 3'' @ [CHR 0x0A]) = [] @ [''data: 3'']"
  "chunk_lines (''data: 7'' @ [CHR 0x0A]) = [''data: 7'']"
  by (simp_all add: chunk_lines_def blank_def is_space_def)

lemma json_nat_examples:
  "json_nat ''{not json'' = None" "json_nat ''3'' = Some 3" "json_nat ''7'' = Some 7"
  by (simp_all add: json_nat_def is_digit_def)

theorem malformed_frame_is_skipped_witness:
  "run_stream json_nat
     ([] @ Data (''data: {not json'' @ [CHR 0x0A] @ ''data: 3'' @ [CHR 0x0A])
        # [Data (''data: 7'' @ [CHR 0x0A])]) \<lparr>promise = Pending, calls = []\<rparr>
   = run_stream json_nat
       ([] @ Data (''data: 3'' @ [CHR 0x0A]) # [Data (''data: 7'' @ [CHR 0x0A])])
       \<lparr>promise = Pending, calls = []\<rparr>
   \<and> calls (run_stream json_nat
       ([] @ Data (''data: {not json'' @ [CHR 0x0A] @ ''data: 3'' @ [CHR 0x0A])
          # [Data (''data: 7'' @ [CHR 0x0A])]) \<lparr>promise = Pending, calls = []\<rparr>) = [3, 7]"
proof -
  have frames: "chunk_frames json_nat (''data: {not json'' @ [CHR 0x0A] @ ''data: 3'' @ [CHR 0x0A]) = [3]"
    "chunk_frames json_nat (''data: 3'' @ [CHR 0x0A]) = [3]"
    "chunk_frames json_nat (''data: 7'' @ [CHR 0x0A]) = [7]"
    by (simp_all only: chunk_frames_def malformed_example_lines)
       (simp_all add: frames_of_lines_def frame_of_def json_nat_examples)
  have "''{not json'' \<noteq> ''[DONE]''" by simp
  then show ?thesis
    using malformed_frame_is_skipped [of
        "''data: {not json'' @ [CHR 0x0A] @ ''data: 3'' @ [CHR 0x0A]" "[]" "''{not json''"
        "[''data: 3'']" json_nat "''data: 3'' @ [CHR 0x0A]" "[]"
        "[Data (''data: 7'' @ [CHR 0x0A])]" "\<lparr>promise = Pending, calls = []\<rparr>"]
      malformed_example_lines json_nat_examples frames
    by (simp add: run_stream_calls)
qed

section \<open>Upload progress\<close>

lemma round_half_up_floor:
  assumes "0 < b"
  shows "int (round_half_up a b) = \<lfloor>real a / real b + 1 / 2\<rfloor>"
proof -
  have "real a / real b + 1 / 2 = real (2 * a + b) / real (2 * b)"
    using assms by (simp add: field_simps)
  then show ?thesis
    by (simp only: round_half_up_def floor_divide_of_nat_eq)
qed

lemma math_round_floor: "int (math_round d) = \<lfloor>dval d + 1 / 2\<rfloor>"
proof -
  have "dval d + 1 / 2 = real (2 * fst d + 2 ^ snd d) / real (2 * 2 ^ snd d)"
    by (simp add: dval_def field_simps)
  then show ?thesis
    by (simp only: math_round_def floor_divide_of_nat_eq)
qed

text \<open>The scale: it reaches the 53 bits, it is the least that does, it falls as the dividend grows.\<close>

lemma scale_of_reaches: "0 < a \<Longrightarrow> 2 ^ 52 * b \<le> a * 2 ^ scale_of a b s"
proof (induction a b s rule: scale_of.induct)
  case (1 a b s)
  show ?case
  proof (cases "2 ^ 52 * b \<le> a * 2 ^ s")
    case True
    then show ?thesis by (subst scale_of.simps) simp
  next
    case False
    with "1.prems" have "scale_of a b s = scale_of a b (Suc s)"
      by (subst scale_of.simps) simp
    with "1.IH" False "1.prems" show ?thesis by simp
  qed
qed

lemma scale_of_least:
  "0 < a \<Longrightarrow> s \<le> s' \<Longrightarrow> s' < scale_of a b s \<Longrightarrow> a * 2 ^ s' < 2 ^ 52 * b"
proof (induction a b s rule: scale_of.induct)
  case (1 a b s)
  show ?case
  proof (cases "2 ^ 52 * b \<le> a * 2 ^ s")
    case True
    then have "scale_of a b s = s" by (subst scale_of.simps) simp
    with "1.prems" show ?thesis by simp
  next
    case False
    with "1.prems" have eq: "scale_of a b s = scale_of a b (Suc s)"
      by (subst scale_of.simps) simp
    show ?thesis
    proof (cases "s' = s")
      case True
      with False show ?thesis by simp
    next
      case ne: False
      with "1.prems" have "Suc s \<le> s'" by simp
      with "1.IH" False "1.prems" eq show ?thesis by simp
    qed
  qed
qed

lemma scale_of_below:
  assumes "0 < a" and "a < 2 ^ 53 * b"
  shows "a * 2 ^ scale_of a b 0 < 2 ^ 53 * b"
proof (cases "scale_of a b 0")
  case 0
  with assms show ?thesis by simp
next
  case (Suc k)
  then have "a * 2 ^ k < 2 ^ 52 * b"
    using scale_of_least [of a 0 k b] assms(1) by simp
  then have "2 * (a * 2 ^ k) < 2 * (2 ^ 52 * b)" by simp
  with Suc show ?thesis by simp
qed

lemma scale_of_antitone:
  assumes "0 < a" and "a \<le> a'"
  shows "scale_of a' b 0 \<le> scale_of a b 0"
proof (rule ccontr)
  assume "\<not> scale_of a' b 0 \<le> scale_of a b 0"
  then have lt: "scale_of a b 0 < scale_of a' b 0" by simp
  have "0 < a'" using assms by simp
  then have "a' * 2 ^ scale_of a b 0 < 2 ^ 52 * b"
    using scale_of_least [of a' 0 "scale_of a b 0" b] lt by simp
  moreover have "2 ^ 52 * b \<le> a * 2 ^ scale_of a b 0"
    using assms(1) by (rule scale_of_reaches)
  moreover have "a * 2 ^ scale_of a b 0 \<le> a' * 2 ^ scale_of a b 0"
    using assms(2) by simp
  ultimately show False by simp
qed

text \<open>Rounding a quotient to the nearest integer.\<close>

lemma rne_div_bounds:
  assumes "0 < b"
  shows "n div b \<le> rne_div n b" and "rne_div n b \<le> n div b + 1"
  by (simp_all add: rne_div_def)

lemma rne_div_exact: "0 < b \<Longrightarrow> rne_div (k * b) b = k"
  by (simp add: rne_div_def)

lemma rne_div_lower: "0 < b \<Longrightarrow> k * b \<le> n \<Longrightarrow> k \<le> rne_div n b"
proof -
  assume b: "0 < b" and "k * b \<le> n"
  then have "k \<le> n div b" by (simp add: less_eq_div_iff_mult_less_eq)
  with rne_div_bounds(1) [OF b, of n] show ?thesis by simp
qed

lemma rne_div_upper: "0 < b \<Longrightarrow> n \<le> k * b \<Longrightarrow> rne_div n b \<le> k"
proof -
  assume b: "0 < b" and le: "n \<le> k * b"
  show ?thesis
  proof (cases "n = k * b")
    case True
    with b show ?thesis by (simp add: rne_div_exact)
  next
    case False
    with le have "n < k * b" by simp
    then have "n div b < k" using b by (simp add: div_less_iff_less_mult)
    with rne_div_bounds(2) [OF b, of n] show ?thesis by simp
  qed
qed

lemma rne_div_mono:
  assumes "0 < b" and "n \<le> n'"
  shows "rne_div n b \<le> rne_div n' b"
proof (cases "n div b = n' div b")
  case True
  have "n mod b \<le> n' mod b"
  proof -
    have "n = n div b * b + n mod b" "n' = n' div b * b + n' mod b" by simp_all
    with True assms(2) show ?thesis by (metis add_le_cancel_left)
  qed
  with True show ?thesis by (auto simp add: rne_div_def)
next
  case False
  have "n div b \<le> n' div b" using assms(2) by (rule div_le_mono)
  with False have "n div b + 1 \<le> n' div b" by simp
  with rne_div_bounds [OF assms(1)] show ?thesis
    by (meson le_trans)
qed

lemma rne_div_strict:
  assumes "0 < b" and "2 * n + b < 2 * k * b"
  shows "rne_div n b < k"
proof -
  define q where "q = n div b"
  define r where "r = n mod b"
  have n: "n = q * b + r" by (simp add: q_def r_def)
  have kb: "2 * k * b = 2 * (k * b)" by simp
  have up: "rne_div n b \<le> q + 1"
    by (simp add: rne_div_def q_def r_def)
  have lo: "rne_div n b = q" if "2 * r < b"
    using that by (simp add: rne_div_def q_def r_def)
  show ?thesis
  proof (cases "2 * r < b")
    case True
    have "2 * (q * b) + b < 2 * (k * b)" using assms(2) n kb by linarith
    then have "(2 * q + 1) * b < (2 * k) * b" by (simp add: algebra_simps)
    then have "2 * q + 1 < 2 * k" by (simp only: mult_less_cancel2)
    with lo [OF True] show ?thesis by simp
  next
    case False
    then have "2 * (q * b) + 2 * b < 2 * (k * b)" using assms(2) n kb by linarith
    then have "(q + 1) * b < k * b" by (simp add: algebra_simps)
    then have "q + 1 < k" by (simp only: mult_less_cancel2)
    with up show ?thesis by simp
  qed
qed

text \<open>The double quotient does not fall when the dividend grows.\<close>

lemma double_div_mono:
  assumes b: "0 < b" and le: "a \<le> a'" and r: "a' < 2 ^ 53 * b"
  shows "dval (double_div a b) \<le> dval (double_div a' b)"
proof (cases "a = 0")
  case True
  then show ?thesis by (simp add: double_div_def dval_def rne_div_def)
next
  case False
  then have a: "0 < a" by simp
  then have a': "0 < a'" using le by simp
  define s where "s = scale_of a b 0"
  define s' where "s' = scale_of a' b 0"
  define m where "m = rne_div (a * 2 ^ s) b"
  define m' where "m' = rne_div (a' * 2 ^ s') b"
  have ss: "s' \<le> s" unfolding s_def s'_def using a le by (rule scale_of_antitone)
  have cross: "m * 2 ^ s' \<le> m' * 2 ^ s"
  proof (cases "s' = s")
    case True
    have "m \<le> m'" unfolding m_def m'_def True using b le by (intro rne_div_mono) simp_all
    with True show ?thesis by simp
  next
    case False
    with ss have lt: "Suc s' \<le> s" by simp
    have "a * 2 ^ s < 2 ^ 53 * b"
      unfolding s_def using a le r by (intro scale_of_below) simp_all
    then have "m \<le> 2 ^ 53" unfolding m_def using b by (intro rne_div_upper) simp_all
    moreover have "2 ^ 52 * b \<le> a' * 2 ^ s'" unfolding s'_def using a' by (rule scale_of_reaches)
    then have "2 ^ 52 \<le> m'" unfolding m'_def using b by (intro rne_div_lower) simp_all
    moreover have "(2::nat) ^ Suc s' \<le> 2 ^ s" using lt by (intro power_increasing) simp_all
    ultimately have "m * 2 ^ s' \<le> 2 ^ 53 * 2 ^ s'" and "2 ^ 52 * 2 ^ Suc s' \<le> m' * 2 ^ s"
      by (intro mult_le_mono; simp)+
    moreover have "(2::nat) ^ 53 * 2 ^ s' = 2 ^ 52 * 2 ^ Suc s'" by simp
    ultimately show ?thesis by (simp only: le_trans)
  qed
  have "real m / 2 ^ s \<le> real m' / 2 ^ s'"
  proof -
    have "real (m * 2 ^ s') \<le> real (m' * 2 ^ s)" using cross by (simp only: of_nat_le_iff)
    then show ?thesis by (simp add: field_simps)
  qed
  then show ?thesis
    by (simp add: dval_def double_div_def m_def m'_def s_def s'_def)
qed

lemma math_round_mono:
  assumes "0 < b" and "a \<le> a'" and "a' < 2 ^ 53 * b"
  shows "math_round (double_div a b) \<le> math_round (double_div a' b)"
proof -
  have "\<lfloor>dval (double_div a b) + 1 / 2\<rfloor> \<le> \<lfloor>dval (double_div a' b) + 1 / 2\<rfloor>"
    using double_div_mono [OF assms] by (intro floor_mono) simp
  then show ?thesis by (simp add: math_round_floor [symmetric])
qed

text \<open>A payload wholly loaded is reported as 100.\<close>

lemma math_round_full: "0 < t \<Longrightarrow> math_round (double_div (t * 100) t) = 100"
proof -
  assume t: "0 < t"
  define s where "s = scale_of (t * 100) t 0"
  have "rne_div (t * 100 * 2 ^ s) t = 100 * 2 ^ s"
    using rne_div_exact [OF t, of "100 * 2 ^ s"] by (simp add: mult_ac)
  then have "math_round (double_div (t * 100) t) = (2 * (100 * 2 ^ s) + 2 ^ s) div (2 * 2 ^ s)"
    by (simp add: math_round_def double_div_def s_def)
  also have "\<dots> = (2 ^ s * 201) div (2 ^ s * 2)" by (simp add: algebra_simps)
  also have "\<dots> = 201 div 2" by (simp only: div_mult_mult1_if) simp
  finally show ?thesis by simp
qed

text \<open>
  For a total below \<open>2^45\<close> and a quotient of at most 128, the double quotient rounds
  to the same integer as the exact one.
\<close>

lemma math_round_exact:
  assumes t: "0 < t" and small: "t < 2 ^ 45" and le: "a \<le> 128 * t"
  shows "math_round (double_div a t) = round_half_up a t"
proof (cases "a = 0")
  case True
  then show ?thesis using t
    by (simp add: math_round_def double_div_def rne_div_def round_half_up_def scale_of.simps)
next
  case False
  then have a: "0 < a" by simp
  define s where "s = scale_of a t 0"
  define m where "m = rne_div (a * 2 ^ s) t"
  define k where "k = round_half_up a t"
  have k1: "k * (2 * t) \<le> 2 * a + t" and k2: "2 * a + t < (k + 1) * (2 * t)"
  proof -
    show "k * (2 * t) \<le> 2 * a + t"
      unfolding k_def round_half_up_def by (rule div_times_less_eq_dividend)
    have "2 * a + t < 2 * t + (2 * a + t) div (2 * t) * (2 * t)"
      using t by (intro dividend_less_div_times) simp
    then show "2 * a + t < (k + 1) * (2 * t)"
      unfolding k_def round_half_up_def by (simp add: algebra_simps)
  qed
  have reach: "2 ^ 52 * t \<le> a * 2 ^ s" unfolding s_def using a by (rule scale_of_reaches)
  have big: "t < 2 ^ s"
  proof -
    have "2 ^ 52 * t \<le> 128 * t * 2 ^ s" using reach le
      by (meson le_trans mult_le_mono1)
    then have "(2 ^ 45 * 128) * t \<le> (2 ^ s * 128) * t" by (simp add: algebra_simps)
    then have "(2::nat) ^ 45 \<le> 2 ^ s" using t by simp
    with small show ?thesis by simp
  qed
  then have "s \<noteq> 0" using t by (cases s) auto
  then obtain s0 where s0: "s = Suc s0" by (cases s) auto
  have lower: "k * 2 ^ s \<le> m + 2 ^ s0"
  proof (cases "k = 0")
    case True
    then show ?thesis by simp
  next
    case False
    then obtain j where j: "k = Suc j" by (cases k) auto
    have "(2 * j + 1) * t \<le> 2 * a" using k1 j by (simp add: algebra_simps)
    then have "2 ^ s0 * ((2 * j + 1) * t) \<le> 2 ^ s0 * (2 * a)" by (rule mult_le_mono2)
    then have "((2 * j + 1) * 2 ^ s0) * t \<le> a * 2 ^ s" by (simp add: s0 algebra_simps)
    then have "(2 * j + 1) * 2 ^ s0 \<le> m" unfolding m_def using t by (intro rne_div_lower) simp_all
    then show ?thesis by (simp add: j s0 algebra_simps)
  qed
  have upper: "m + 2 ^ s0 < (k + 1) * 2 ^ s"
  proof -
    have "2 * a + 1 \<le> (2 * k + 1) * t" using k2 by (simp add: algebra_simps)
    then have "2 ^ s0 * (2 * a + 1) \<le> 2 ^ s0 * ((2 * k + 1) * t)" by (rule mult_le_mono2)
    then have "a * 2 ^ s + 2 ^ s0 \<le> ((2 * k + 1) * 2 ^ s0) * t" by (simp add: s0 algebra_simps)
    moreover have "t < 2 * 2 ^ s0" using big by (simp add: s0)
    moreover have "2 * ((2 * k + 1) * 2 ^ s0) * t = 2 * (((2 * k + 1) * 2 ^ s0) * t)" by simp
    ultimately have "2 * (a * 2 ^ s) + t < 2 * ((2 * k + 1) * 2 ^ s0) * t" by linarith
    then have "m < (2 * k + 1) * 2 ^ s0" unfolding m_def using t by (intro rne_div_strict) simp_all
    then show ?thesis by (simp add: s0 algebra_simps)
  qed
  have "(2 * m + 2 ^ s) div (2 * 2 ^ s) = k"
  proof (rule div_nat_eqI)
    show "2 * 2 ^ s * k \<le> 2 * m + 2 ^ s" using lower by (simp add: s0 algebra_simps)
    show "2 * m + 2 ^ s < 2 * 2 ^ s * Suc k" using upper by (simp add: s0 algebra_simps)
  qed
  then show ?thesis by (simp add: math_round_def double_div_def m_def s_def k_def)
qed

text \<open>The reports of a sequence of progress events.\<close>

lemma report_progress_foldl:
  "foldl (\<lambda>reported ev. onUploadProgress has_cb ev reported) acc evs =
     acc @ concat (map (\<lambda>ev. onUploadProgress has_cb ev []) evs)"
proof (induction evs arbitrary: acc)
  case Nil
  then show ?case by simp
next
  case (Cons ev evs)
  have "onUploadProgress has_cb ev acc = acc @ onUploadProgress has_cb ev []"
    by (simp add: onUploadProgress_def split: option.splits)
  then show ?case
    using Cons.IH [of "onUploadProgress has_cb ev acc"] by simp
qed

lemma report_progress_concat:
  "report_progress has_cb evs = concat (map (\<lambda>ev. onUploadProgress has_cb ev []) evs)"
  by (simp add: report_progress_def report_progress_foldl)

lemma report_progress_known:
  assumes "list_all (\<lambda>e. total_bytes e = Some t) evs" and "0 < t"
  shows "report_progress True evs = map (\<lambda>e. math_round (double_div (loaded e * 100) t)) evs"
  unfolding report_progress_concat
  using assms by (induction evs) (simp_all add: onUploadProgress_def)

lemma report_progress_unknown:
  assumes "list_all (\<lambda>e. \<not> num_truthy (total_bytes e)) evs"
  shows "report_progress has_cb evs = []"
  unfolding report_progress_concat
  using assms
  by (induction evs) (auto simp add: onUploadProgress_def num_truthy_def split: option.splits)

lemma sorted_percentages:
  assumes "sorted (map loaded evs)" and "0 < t"
    and "list_all (\<lambda>e. loaded e * 100 < 2 ^ 53) evs"
  shows "sorted (map (\<lambda>e. math_round (double_div (loaded e * 100) t)) evs)"
  using assms
proof (induction evs)
  case Nil
  then show ?case by simp
next
  case (Cons e evs)
  have "math_round (double_div (loaded e * 100) t) \<le> math_round (double_div (loaded e' * 100) t)"
    if "e' \<in> set evs" for e'
  proof -
    from that Cons.prems(1) have "loaded e * 100 \<le> loaded e' * 100" by simp
    moreover from that Cons.prems(3) have "loaded e' * 100 < 2 ^ 53"
      by (simp add: list_all_iff)
    then have "loaded e' * 100 < 2 ^ 53 * t"
      using Cons.prems(2) by (metis less_le_trans mult.right_neutral mult_le_mono2 Suc_leI One_nat_def)
    ultimately show ?thesis using Cons.prems(2) by (intro math_round_mono)
  qed
  then show ?case using Cons by simp
qed

lemma exact_percentages:
  assumes "0 < t" and "t < 2 ^ 45" and "list_all (\<lambda>e. loaded e \<le> t) evs"
  shows "map (\<lambda>e. math_round (double_div (loaded e * 100) t)) evs =
         map (\<lambda>e. round_half_up (loaded e * 100) t) evs"
  using assms(3)
proof (induction evs)
  case Nil
  then show ?case by simp
next
  case (Cons e evs)
  then have "loaded e * 100 \<le> 128 * t" by simp
  then have "math_round (double_div (loaded e * 100) t) = round_half_up (loaded e * 100) t"
    using assms(1,2) by (intro math_round_exact)
  with Cons show ?case by simp
qed

lemma upload_reported:
  "fst (snd (upload tr endpoint formData has_cb progress c)) = report_progress has_cb progress"
  by (simp add: upload_eq split: sum.splits)

text \<open>
  C9, amended to what the code does. Let the transport report the progress events
  \<open>progress\<close> during an upload with a progress callback, every event carrying the
  same known total \<open>0 < t < 2^53\<close> and a loaded byte count with
  \<open>loaded * 100 < 2^53\<close>. Then the callback is invoked once per
  event, with \<open>Math.round\<close> of the double quotient \<open>loaded * 100 / t\<close>; the reported
  percentages do not decrease when the loaded byte counts do not; the last one is 100
  when the last event reports the whole payload as loaded; and for \<open>t < 2^45\<close> and
  loaded byte counts of at most \<open>t\<close> every reported value is the exact quotient
  rounded to the nearest integer, a half rounded up. If no event carries a total (it is
  undefined, or zero), or if no callback was passed, the callback is never invoked.
\<close>

theorem upload_progress_percentages:
  "(list_all (\<lambda>e. total_bytes e = Some t) progress \<and> 0 < t \<and> t < 2 ^ 53
      \<and> list_all (\<lambda>e. loaded e * 100 < 2 ^ 53) progress \<longrightarrow>
      fst (snd (upload tr endpoint formData True progress c)) =
        map (\<lambda>e. math_round (double_div (loaded e * 100) t)) progress
      \<and> (sorted (map loaded progress) \<longrightarrow>
           sorted (fst (snd (upload tr endpoint formData True progress c))))
      \<and> (progress \<noteq> [] \<and> loaded (last progress) = t \<longrightarrow>
           last (fst (snd (upload tr endpoint formData True progress c))) = 100)
      \<and> (t < 2 ^ 45 \<and> list_all (\<lambda>e. loaded e \<le> t) progress \<longrightarrow>
           fst (snd (upload tr endpoint formData True progress c)) =
             map (\<lambda>e. round_half_up (loaded e * 100) t) progress))
   \<and> (list_all (\<lambda>e. \<not> num_truthy (total_bytes e)) progress \<longrightarrow>
      fst (snd (upload tr endpoint formData has_cb progress c)) = [])
   \<and> fst (snd (upload tr endpoint formData False progress c)) = []"
proof (intro conjI impI)
  assume a: "list_all (\<lambda>e. total_bytes e = Some t) progress \<and> 0 < t \<and> t < 2 ^ 53
      \<and> list_all (\<lambda>e. loaded e * 100 < 2 ^ 53) progress"
  then have eq: "fst (snd (upload tr endpoint formData True progress c)) =
      map (\<lambda>e. math_round (double_div (loaded e * 100) t)) progress"
    by (simp add: upload_reported report_progress_known)
  show "fst (snd (upload tr endpoint formData True progress c)) =
      map (\<lambda>e. math_round (double_div (loaded e * 100) t)) progress"
    by (rule eq)
  show "sorted (fst (snd (upload tr endpoint formData True progress c)))"
    if "sorted (map loaded progress)"
    using that a by (simp only: eq sorted_percentages)
  show "last (fst (snd (upload tr endpoint formData True progress c))) = 100"
    if "progress \<noteq> [] \<and> loaded (last progress) = t"
    using that a by (simp add: eq last_map math_round_full)
  show "fst (snd (upload tr endpoint formData True progress c)) =
      map (\<lambda>e. round_half_up (loaded e * 100) t) progress"
    if "t < 2 ^ 45 \<and> list_all (\<lambda>e. loaded e \<le> t) progress"
    using that a by (simp only: eq exact_percentages)
next
  assume "list_all (\<lambda>e. \<not> num_truthy (total_bytes e)) progress"
  then show "fst (snd (upload tr endpoint formData has_cb progress c)) = []"
    by (simp add: upload_reported report_progress_unknown)
next
  show "fst (snd (upload tr endpoint formData False progress c)) = []"
    unfolding upload_reported report_progress_concat
    by (induction progress) (simp_all add: onUploadProgress_def split: option.splits)
qed

theorem upload_progress_percentages_witness:
  "fst (snd (upload ok_transport ''/models'' JNull True
       [\<lparr>loaded = 1, total_bytes = Some 3\<rparr>, \<lparr>loaded = 2, total_bytes = Some 3\<rparr>,
        \<lparr>loaded = 3, total_bytes = Some 3\<rparr>] example_client)) = [33, 67, 100]
   \<and> fst (snd (upload ok_transport ''/models'' JNull True
       [\<lparr>loaded = 1, total_bytes = None\<rparr>, \<lparr>loaded = 2, total_bytes = Some 0\<rparr>] example_client)) = []"
proof -
  have v: "math_round (double_div 100 3) = 33" "math_round (double_div 200 3) = 67"
      "math_round (double_div 300 3) = 100"
    by (simp_all add: math_round_def double_div_def rne_div_def scale_of.simps)
  show ?thesis
    using upload_progress_percentages [where t = 3 and tr = ok_transport
        and endpoint = "''/models''" and formData = JNull and c = example_client
        and has_cb = True and progress =
        "[\<lparr>loaded = 1, total_bytes = Some 3\<rparr>, \<lparr>loaded = 2, total_bytes = Some 3\<rparr>,
          \<lparr>loaded = 3, total_bytes = Some 3\<rparr>]"]
      upload_progress_percentages [where t = 3 and tr = ok_transport
        and endpoint = "''/models''" and formData = JNull and c = example_client
        and has_cb = True and progress =
        "[\<lparr>loaded = 1, total_bytes = None\<rparr>, \<lparr>loaded = 2, total_bytes = Some 0\<rparr>]"]
    by (simp add: v round_half_up_def num_truthy_def)
qed

text \<open>
  C9 as stated fails: the reported value is not always the quotient
  \<open>loaded * 100 / total\<close> rounded. For 90071992547311 bytes loaded of 181963621307699
  the quotient is just below 49.5 and rounds to 49; the double nearest to it is 49.5
  (\<open>99 * 2^46 / 2^47\<close>), and the callback is invoked with 50.
\<close>

theorem reported_percentage_is_not_the_rounded_quotient:
  "fst (snd (upload ok_transport ''/models'' JNull True
       [\<lparr>loaded = 90071992547311, total_bytes = Some 181963621307699\<rparr>] example_client)) = [50]
   \<and> double_div (90071992547311 * 100) 181963621307699 = (99 * 2 ^ 46, 47)
   \<and> round_half_up (90071992547311 * 100) 181963621307699 = 49
   \<and> \<lfloor>real (90071992547311 * 100) / real 181963621307699 + 1 / 2\<rfloor> = 49"
proof -
  have d: "double_div (90071992547311 * 100) 181963621307699 = (99 * 2 ^ 46, 47)"
    by (simp add: double_div_def rne_div_def scale_of.simps)
  have m: "math_round (double_div 9007199254731100 181963621307699) = 50"
    by (simp add: math_round_def double_div_def rne_div_def scale_of.simps)
  have r: "round_half_up (90071992547311 * 100) 181963621307699 = 49"
    by (simp add: round_half_up_def)
  have "int (round_half_up (90071992547311 * 100) 181963621307699) =
      \<lfloor>real (90071992547311 * 100) / real 181963621307699 + 1 / 2\<rfloor>"
    by (rule round_half_up_floor) simp
  then have f: "\<lfloor>real (90071992547311 * 100) / real 181963621307699 + 1 / 2\<rfloor> = 49"
    by (simp only: r)
  have "fst (snd (upload ok_transport ''/models'' JNull True
       [\<lparr>loaded = 90071992547311, total_bytes = Some 181963621307699\<rparr>] example_client)) = [50]"
    by (simp add: upload_reported report_progress_def onUploadProgress_def m)
  with d r f show ?thesis by (simp only: simp_thms)
qed

end
